theory Spec2Isabelle
  imports
    Complex_Main
    "HOL-Library.Word"
    "HOL-Library.Multiset"
    "HOL-Library.Char_ord"
    "HOL-Library.List_Lexorder"
    "HOL-Library.Product_Lexorder"
begin

unbundle bit_operations_syntax

section \<open>Bytes and Python slices\<close>

text \<open>
  A \<^verbatim>\<open>bytes\<close> or \<^verbatim>\<open>bytearray\<close> object is a list of 8-bit words. Python integers are
  unbounded and are modelled by \<^typ>\<open>int\<close>.
\<close>

type_synonym byte = "8 word"
type_synonym bytes = "byte list"

text \<open>
  The index normalisation of a slice \<^verbatim>\<open>xs[i:j]\<close> with step 1: a negative index counts from
  the end, and the result is clamped to \<open>0 .. len\<close>.
\<close>

definition norm_index :: "nat \<Rightarrow> int \<Rightarrow> nat" where
  "norm_index len i =
     (if i < 0 then (if i + int len < 0 then 0 else nat (i + int len))
      else if int len < i then len else nat i)"

text \<open>\<^verbatim>\<open>xs[i:j]\<close> as an expression.\<close>

definition py_slice :: "'a list \<Rightarrow> int \<Rightarrow> int \<Rightarrow> 'a list" where
  "py_slice xs i j =
     (let lo = norm_index (length xs) i; hi = norm_index (length xs) j
      in take (hi - lo) (drop lo xs))"

text \<open>
  \<^verbatim>\<open>xs[i:j] = ys\<close> on a bytearray: the slice is cut out and \<open>ys\<close> put in its place,
  whatever the length of \<open>ys\<close>; an upper end below the lower end is moved up to it.
\<close>

definition py_slice_assign :: "'a list \<Rightarrow> int \<Rightarrow> int \<Rightarrow> 'a list \<Rightarrow> 'a list" where
  "py_slice_assign xs i j ys =
     (let lo = norm_index (length xs) i; hi = max lo (norm_index (length xs) j)
      in take lo xs @ ys @ drop hi xs)"

section \<open>Data model\<close>

datatype scalar = SFloat | SInt32 | SUint32 | SBool32 | SUint8

text \<open>
  The values the codec handles. A Python float is modelled by its exact value: a finite
  number (a rational, \<open>+0.0\<close> being \<open>FNum 0\<close>), the negative zero, an infinity (the flag says
  negative) or a NaN with its sign and payload.
\<close>

datatype pyfloat = FNum rat | FNegZero | FInf bool | FNan bool int

datatype pyval = VInt int | VFloat pyfloat

datatype error = OutOfBounds | StructError | ConversionError | ParseError | LengthMismatch

text \<open>
  The conversions of the Python runtime that round: \<^verbatim>\<open>struct.pack("<f", x)\<close> (the
  single-precision bit pattern of a float, \<open>None\<close> when it raises OverflowError),
  \<^verbatim>\<open>float(i)\<close> of an integer (\<open>None\<close> when it raises OverflowError) and \<^verbatim>\<open>float(s)\<close> of a
  string (\<open>None\<close> when it raises ValueError). They are parameters of the model.
\<close>

record float_conv =
  pack_f32 :: "pyfloat \<Rightarrow> 32 word option"
  float_of_int :: "int \<Rightarrow> pyfloat option"
  float_of_str :: "string \<Rightarrow> pyfloat option"

section \<open>Binary helpers\<close>

datatype fmt = Fmt_f | Fmt_i | Fmt_I | Fmt_B

text \<open>The table \<^verbatim>\<open>_FMT\<close>: format and byte width of each scalar kind.\<close>

fun FMT :: "scalar \<Rightarrow> fmt \<times> int" where
  "FMT SFloat = (Fmt_f, 4)"
| "FMT SInt32 = (Fmt_i, 4)"
| "FMT SUint32 = (Fmt_I, 4)"
| "FMT SBool32 = (Fmt_I, 4)"
| "FMT SUint8 = (Fmt_B, 1)"

definition width :: "scalar \<Rightarrow> int" where
  "width sc = snd (FMT sc)"

text \<open>Little-endian bytes of an integer (two's complement for a negative one) and back.\<close>

fun le_bytes :: "nat \<Rightarrow> int \<Rightarrow> bytes" where
  "le_bytes 0 x = []"
| "le_bytes (Suc n) x = word_of_int x # le_bytes n (x div 256)"

fun le_int :: "bytes \<Rightarrow> int" where
  "le_int [] = 0"
| "le_int (b # bs) = uint b + 256 * le_int bs"

text \<open>
  \<^verbatim>\<open>struct.pack\<close> of an integer in the standard-size little-endian formats: a value
  outside the range of the format raises \<^verbatim>\<open>struct.error\<close>.
\<close>

fun struct_pack_int :: "fmt \<Rightarrow> int \<Rightarrow> error + bytes" where
  "struct_pack_int Fmt_I x =
     (if 0 \<le> x \<and> x < 2 ^ 32 then Inr (le_bytes 4 x) else Inl StructError)"
| "struct_pack_int Fmt_i x =
     (if - (2 ^ 31) \<le> x \<and> x < 2 ^ 31 then Inr (le_bytes 4 x) else Inl StructError)"
| "struct_pack_int Fmt_B x =
     (if 0 \<le> x \<and> x < 2 ^ 8 then Inr (le_bytes 1 x) else Inl StructError)"
| "struct_pack_int Fmt_f x = Inl StructError"

text \<open>\<^verbatim>\<open>struct.pack("<f", x)\<close> of a float.\<close>

definition struct_pack_float :: "float_conv \<Rightarrow> pyfloat \<Rightarrow> error + bytes" where
  "struct_pack_float conv x =
     (case pack_f32 conv x of
        None \<Rightarrow> Inl ConversionError
      | Some w \<Rightarrow> Inr (le_bytes 4 (uint w)))"

text \<open>
  The value of a single-precision bit pattern (IEEE 754 binary32), given as the unsigned
  integer of its 32 bits: sign, 8 bits of exponent, 23 bits of fraction.
\<close>

definition f32_value :: "int \<Rightarrow> pyfloat" where
  "f32_value bits =
     (let neg = (bits div 2 ^ 31 = 1);
          e = (bits div 2 ^ 23) mod 2 ^ 8;
          m = bits mod 2 ^ 23;
          sgn = (if neg then - 1 else 1)
      in if e = 255 then (if m = 0 then FInf neg else FNan neg m)
         else if e = 0 then
           (if m = 0 then (if neg then FNegZero else FNum 0)
            else FNum (of_int (sgn * m) / 2 ^ 149))
         else if 150 \<le> e then FNum (of_int (sgn * (2 ^ 23 + m) * 2 ^ nat (e - 150)))
         else FNum (of_int (sgn * (2 ^ 23 + m)) / 2 ^ nat (150 - e)))"

text \<open>
  \<^verbatim>\<open>struct.unpack_from(fmt, blob, off)[0]\<close> for an offset that is not negative: it raises
  \<^verbatim>\<open>struct.error\<close> when fewer bytes than the format needs are left at the offset.
\<close>

definition fmt_size :: "fmt \<Rightarrow> nat" where
  "fmt_size f = (case f of Fmt_B \<Rightarrow> 1 | _ \<Rightarrow> 4)"

definition decode_fmt :: "fmt \<Rightarrow> bytes \<Rightarrow> pyval" where
  "decode_fmt f bs =
     (case f of
        Fmt_f \<Rightarrow> VFloat (f32_value (le_int bs))
      | Fmt_i \<Rightarrow> VInt (if 2 ^ 31 \<le> le_int bs then le_int bs - 2 ^ 32 else le_int bs)
      | Fmt_I \<Rightarrow> VInt (le_int bs)
      | Fmt_B \<Rightarrow> VInt (le_int bs))"

definition struct_unpack_from :: "fmt \<Rightarrow> bytes \<Rightarrow> nat \<Rightarrow> error + pyval" where
  "struct_unpack_from f blob off =
     (if length blob < off + fmt_size f then Inl StructError
      else Inr (decode_fmt f (take (fmt_size f) (drop off blob))))"

text \<open>
  \<^verbatim>\<open>int(v)\<close>: a float is truncated towards zero; an infinity raises OverflowError and a NaN
  ValueError.
\<close>

fun py_int_of :: "pyval \<Rightarrow> error + int" where
  "py_int_of (VInt i) = Inr i"
| "py_int_of (VFloat (FNum q)) = Inr (if 0 \<le> q then \<lfloor>q\<rfloor> else \<lceil>q\<rceil>)"
| "py_int_of (VFloat FNegZero) = Inr 0"
| "py_int_of (VFloat (FInf _)) = Inl ConversionError"
| "py_int_of (VFloat (FNan _ _)) = Inl ConversionError"

text \<open>\<^verbatim>\<open>float(v)\<close>.\<close>

fun py_float_of :: "float_conv \<Rightarrow> pyval \<Rightarrow> error + pyfloat" where
  "py_float_of conv (VFloat x) = Inr x"
| "py_float_of conv (VInt i) =
     (case float_of_int conv i of None \<Rightarrow> Inl ConversionError | Some x \<Rightarrow> Inr x)"

text \<open>
  \<^verbatim>\<open>read_scalar\<close>: the bounds check, the raw slice, the unpacked value, and the
  normalisation of a \<^verbatim>\<open>bool32\<close> to 0 or 1.
\<close>

definition read_scalar :: "bytes \<Rightarrow> int \<Rightarrow> scalar \<Rightarrow> error + (pyval \<times> bytes)" where
  "read_scalar blob off sc =
     (let (f, n) = FMT sc in
      if off < 0 \<or> int (length blob) < off + n then Inl OutOfBounds
      else
        let raw = py_slice blob off (off + n) in
        case struct_unpack_from f blob (nat off) of
          Inl e \<Rightarrow> Inl e
        | Inr v \<Rightarrow>
            if sc = SBool32 then
              (case py_int_of v of
                 Inl e \<Rightarrow> Inl e
               | Inr i \<Rightarrow> Inr (VInt (if i \<noteq> 0 then 1 else 0), raw))
            else Inr (v, raw))"

text \<open>
  \<^verbatim>\<open>write_scalar\<close> mutates the bytearray it is given: the model returns the buffer after
  the call together with the result, the packed bytes or the exception. An exception
  leaves the buffer as it was, since the slice assignment is the last statement before
  the return.
\<close>

definition write_scalar :: "float_conv \<Rightarrow> bytes \<Rightarrow> int \<Rightarrow> scalar \<Rightarrow> pyval \<Rightarrow> bytes \<times> (error + bytes)" where
  "write_scalar conv buf off sc v =
     (let (f, n) = FMT sc in
      if off < 0 \<or> int (length buf) < off + n then (buf, Inl OutOfBounds)
      else
        let packed =
          (if sc = SFloat then
             (case py_float_of conv v of
                Inl e \<Rightarrow> Inl e
              | Inr x \<Rightarrow> struct_pack_float conv x)
           else if sc = SUint8 then
             (case py_int_of v of
                Inl e \<Rightarrow> Inl e
              | Inr i \<Rightarrow> struct_pack_int f (i AND 0xFF))
           else
             (case py_int_of v of
                Inl e \<Rightarrow> Inl e
              | Inr i \<Rightarrow>
                  let iv = (if sc = SBool32 then (if i \<noteq> 0 then 1 else 0) else i)
                  in struct_pack_int f (iv AND 0xFFFFFFFF)))
        in case packed of
             Inl e \<Rightarrow> (buf, Inl e)
           | Inr bs \<Rightarrow> (py_slice_assign buf off (off + n) bs, Inr bs))"


section \<open>Field definitions and instances\<close>

datatype mrdf_field_def = MrdfFieldDef
  (fd_name: string) (fd_section: string) (fd_offset: int) (fd_scalar: scalar)
  (fd_notes: string) (fd_enum: "(int \<times> string) list option")

record mrdf_field_instance =
  i_definition :: mrdf_field_def
  i_offset :: int
  i_raw :: bytes
  i_value :: pyval

text \<open>
  The loop of \<^verbatim>\<open>parse_mrdf\<close>: a definition whose read raises is skipped, the instance of
  any other is appended.
\<close>

fun collect :: "bytes \<Rightarrow> mrdf_field_def list \<Rightarrow> mrdf_field_instance list \<Rightarrow> mrdf_field_instance list" where
  "collect blob [] insts = insts"
| "collect blob (d # ds) insts =
     (case read_scalar blob (fd_offset d) (fd_scalar d) of
        Inl e \<Rightarrow> collect blob ds insts
      | Inr (v, raw) \<Rightarrow>
          collect blob ds
            (insts @ [\<lparr>i_definition = d, i_offset = fd_offset d, i_raw = raw, i_value = v\<rparr>]))"

text \<open>The sort key \<^verbatim>\<open>(i.definition.section, i.offset)\<close>.\<close>

definition sort_key_of :: "mrdf_field_instance \<Rightarrow> string \<times> int" where
  "sort_key_of i = (fd_section (i_definition i), i_offset i)"

text \<open>
  \<^verbatim>\<open>list.sort\<close> is stable; so is \<^const>\<open>sort_key\<close>. Strings compare by code point,
  lexicographically, a proper prefix coming first.
\<close>

definition parse_mrdf :: "bytes \<Rightarrow> mrdf_field_def list \<Rightarrow> mrdf_field_instance list" where
  "parse_mrdf blob defs = sort_key sort_key_of (collect blob defs [])"

section \<open>The field tables\<close>

definition ENGINE_TYPE :: "(int \<times> string) list" where
  "ENGINE_TYPE =
    [(0, ''Don't use''),
     (1, ''V6''),
     (2, ''V8''),
     (3, ''V10''),
     (4, ''V12''),
     (5, ''Straight 4''),
     (6, ''Straight 5''),
     (7, ''Straight 6''),
     (8, ''Rotary 2''),
     (9, ''Rotary 3''),
     (10, ''Flat 4''),
     (11, ''Flat 6''),
     (12, ''W16''),
     (13, ''W12''),
     (14, ''Single Cylinder''),
     (15, ''Twin Cylinder''),
     (16, ''Flat 8''),
     (17, ''Flat 12'')]"

definition DRIVETRAIN :: "(int \<times> string) list" where
  "DRIVETRAIN =
    [(0, ''RWD''),
     (1, ''AWD''),
     (2, ''FWD'')]"

definition BOOST_TYPE :: "(int \<times> string) list" where
  "BOOST_TYPE =
    [(0, ''Natural Aspiration''),
     (1, ''Supercharged''),
     (2, ''Turbo'')]"

definition ASPIRATION :: "(int \<times> string) list" where
  "ASPIRATION =
    [(0, ''Naturally aspirated''),
     (1, ''Boosted'')]"

definition SHIFT_TYPE :: "(int \<times> string) list" where
  "SHIFT_TYPE =
    [(0, ''H Pattern''),
     (1, ''Sequential'')]"

definition TYRE_BITS :: "(int \<times> string) list" where
  "TYRE_BITS =
    [(1, ''Soft / Semi Slick''),
     (2, ''Medium''),
     (4, ''Hard''),
     (8, ''Intermediate''),
     (16, ''Wet''),
     (32, ''Extreme''),
     (64, ''All Weather'')]"

definition STATS_MRDF_DEFS :: "mrdf_field_def list" where
  "STATS_MRDF_DEFS =
    [MrdfFieldDef ''TopSpeed_mps'' ''PERFORMANCE'' 0x20 SFloat
       ''Top speed in meters/sec. MPH*0.447'' None,
     MrdfFieldDef ''Accel_0_100_kmh'' ''PERFORMANCE'' 0x24 SFloat
       ''0-100km/h time (seconds)'' None,
     MrdfFieldDef ''Gear_for_100_kmh'' ''PERFORMANCE'' 0x28 SUint32
       ''Gear needed to reach 100km/h'' None,
     MrdfFieldDef ''Accel_0_160_kmh'' ''PERFORMANCE'' 0x2C SFloat
       ''0-160km/h time (seconds)'' None,
     MrdfFieldDef ''Gear_for_160_kmh'' ''PERFORMANCE'' 0x30 SUint32
       ''Gear needed to reach 160km/h'' None,
     MrdfFieldDef ''Braking_100_0_kmh'' ''PERFORMANCE'' 0x34 SFloat
       ''100-0km/h time (seconds)'' None,
     MrdfFieldDef ''PerformanceIndex_PI'' ''PERFORMANCE'' 0x38 SFloat
       ''Performance rating (not used in-game)'' None,
     MrdfFieldDef ''Mass_kg'' ''PERFORMANCE'' 0x3C SFloat
       ''Mass in kg'' None,
     MrdfFieldDef ''NumGears'' ''DRIVETRAIN'' 0x40 SUint32
       ''Number of gears in transmission'' None,
     MrdfFieldDef ''Torque_lbft'' ''DRIVETRAIN'' 0x44 SFloat
       ''Torque in lb-ft'' None,
     MrdfFieldDef ''HP_SAE_Net'' ''DRIVETRAIN'' 0x48 SFloat
       ''Horsepower (SAE Net)'' None,
     MrdfFieldDef ''DrivetrainType'' ''DRIVETRAIN'' 0x4C SUint32
       ''00=RWD,01=AWD,02=FWD'' (Some DRIVETRAIN),
     MrdfFieldDef ''BoostType'' ''ENGINE'' 0x50 SUint32
       ''0=NA,1=Supercharged,2=Turbo'' (Some BOOST_TYPE),
     MrdfFieldDef ''Aspiration'' ''ENGINE'' 0x54 SUint32
       ''0=NA,1=Boosted'' (Some ASPIRATION),
     MrdfFieldDef ''HandlingPerformance'' ''HANDLING'' 0x58 SFloat
       ''Handling performance'' None,
     MrdfFieldDef ''Unknown_0x5C'' ''UNKNOWN'' 0x5C SUint32
       ''Unknown'' None,
     MrdfFieldDef ''Unknown_0x60'' ''UNKNOWN'' 0x60 SUint32
       ''Unknown'' None,
     MrdfFieldDef ''EngineType'' ''ENGINE'' 0x64 SUint32
       ''Engine type enum'' (Some ENGINE_TYPE),
     MrdfFieldDef ''TierLevel'' ''META'' 0x68 SUint32
       ''Tier level'' None,
     MrdfFieldDef ''Unknown_0x6C'' ''UNKNOWN'' 0x6C SFloat
       ''Unknown float'' None,
     MrdfFieldDef ''Unknown_0x70'' ''UNKNOWN'' 0x70 SFloat
       ''Unknown float'' None,
     MrdfFieldDef ''Unknown_0x74'' ''UNKNOWN'' 0x74 SUint32
       ''Unknown (often 0x80000000 in sample)'' None,
     MrdfFieldDef ''Unknown_0x78'' ''UNKNOWN'' 0x78 SFloat
       ''Unknown float'' None,
     MrdfFieldDef ''Unknown_0x7C'' ''UNKNOWN'' 0x7C SFloat
       ''Unknown float'' None,
     MrdfFieldDef ''BodyHeightAdjust_m'' ''CHASSIS'' 0x80 SFloat
       ''Menu-only body height adjust (m)'' None,
     MrdfFieldDef ''Wheelbase_m'' ''CHASSIS'' 0x84 SFloat
       ''Wheelbase (m)'' None,
     MrdfFieldDef ''RearWeightDistribution'' ''CHASSIS'' 0x88 SFloat
       ''Rear weight distribution (0..1)'' None,
     MrdfFieldDef ''ABS'' ''ASSISTS'' 0x8C SBool32
       ''ABS enabled (1=true)'' None,
     MrdfFieldDef ''TC'' ''ASSISTS'' 0x90 SBool32
       ''Traction Control (1=true)'' None,
     MrdfFieldDef ''SC'' ''ASSISTS'' 0x94 SBool32
       ''Stability Control (1=true)'' None,
     MrdfFieldDef ''CorneringDifficulty'' ''HANDLING'' 0x98 SUint32
       ''Cornering difficulty (1,2,3)'' None,
     MrdfFieldDef ''CorneringSpeed'' ''HANDLING'' 0x9C SUint32
       ''Cornering speed (1,2,3)'' None,
     MrdfFieldDef ''EngineDisplacement'' ''ENGINE'' 0xA0 SFloat
       ''Engine displacement (units: litres)'' None,
     MrdfFieldDef ''ShiftType'' ''DRIVETRAIN'' 0xA4 SUint32
       ''00=H Pattern,01=Sequential'' (Some SHIFT_TYPE),
     MrdfFieldDef ''DRS_Enabled'' ''AERO'' 0xA8 SBool32
       ''DRS available (1=true)'' None,
     MrdfFieldDef ''BoostButton'' ''ENGINE'' 0xAC SBool32
       ''Boost button available (1=true)'' None,
     MrdfFieldDef ''AdjustableTurbo'' ''ENGINE'' 0xB0 SBool32
       ''Adjustable turbo available (1=true)'' None,
     MrdfFieldDef ''OnboardRollBars'' ''CHASSIS'' 0xB4 SBool32
       ''Onboard roll bars adjustable (1=true)'' None,
     MrdfFieldDef ''OnboardBrakeBias'' ''BRAKES'' 0xB8 SBool32
       ''Onboard brake bias adjustable (1=true)'' None,
     MrdfFieldDef ''TyreAvailability'' ''TYRES'' 0xBC SUint32
       ''Tyre availability bitmask in low byte (0x40=All Weather override; else bits 0-5: Soft/Med/Hard/Inter/Wet/Unknown)'' None,
     MrdfFieldDef ''Headlights'' ''ELECTRICAL'' 0xC0 SBool32
       ''Headlights available (1=true)'' None,
     MrdfFieldDef ''PitLimiter'' ''DRIVETRAIN'' 0xC4 SBool32
       ''Pit limiter available (1=true)'' None]"

definition TICK_RATE :: "(int \<times> string) list" where
  "TICK_RATE =
    [(180, ''180 Hz''),
     (360, ''360 Hz''),
     (540, ''540 Hz'')]"

definition BOOL01 :: "(int \<times> string) list" where
  "BOOL01 =
    [(0, ''False''),
     (1, ''True'')]"

definition PHYSICS_MRDF_DEFS :: "mrdf_field_def list" where
  "PHYSICS_MRDF_DEFS =
    [MrdfFieldDef ''BrakeGlowMinTemp'' ''BRAKES'' 0x30 SFloat
       ''Brake glow minimum temp (float)'' None,
     MrdfFieldDef ''BrakeGlowMaxTemp'' ''BRAKES'' 0x34 SFloat
       ''Brake glow maximum temp (float)'' None,
     MrdfFieldDef ''BrakeGlowScaleAI'' ''BRAKES'' 0x38 SFloat
       ''Brake glow scale for AI (float)'' None,
     MrdfFieldDef ''BrakeGlowScalePlayer'' ''BRAKES'' 0x3C SFloat
       ''Brake glow scale for Player (float)'' None,
     MrdfFieldDef ''ContinuousCDThickness'' ''JOINTS'' 0x48 SFloat
       ''Continuous CD Thickness (float)'' None,
     MrdfFieldDef ''JointIterations'' ''JOINTS'' 0x4C SUint32
       ''Joint Iterations (often looks integer in dumps)'' None,
     MrdfFieldDef ''JointStrength'' ''JOINTS'' 0x50 SFloat
       ''Joint Strength (float)'' None,
     MrdfFieldDef ''EnableAntiFlipAid'' ''ANTI-FLIP'' 0x54 SUint32
       ''Enable Anti Flip Aid (0/1)'' (Some BOOL01),
     MrdfFieldDef ''AntiFlipMinAngle'' ''ANTI-FLIP'' 0x58 SFloat
       ''Anti Flip Minimum Angle (deg)'' None,
     MrdfFieldDef ''AntiFlipMaxAngle'' ''ANTI-FLIP'' 0x5C SFloat
       ''Anti Flip Maximum Angle (deg)'' None,
     MrdfFieldDef ''AntiFlipTorqueForce'' ''ANTI-FLIP'' 0x60 SFloat
       ''Anti Flip Torque Fixing Force'' None,
     MrdfFieldDef ''AntiFlipOrientForce'' ''ANTI-FLIP'' 0x64 SFloat
       ''Anti Flip Orientation Fixing Force'' None,
     MrdfFieldDef ''MinBumpStopForce'' ''SUSPENSION'' 0x2F0 SFloat
       ''Minimum Bump Stop Force'' None,
     MrdfFieldDef ''MaxBumpStopForce'' ''SUSPENSION'' 0x2F4 SFloat
       ''Maximum Bump Stop Force'' None,
     MrdfFieldDef ''DraftMinSpeed'' ''DRAFTING'' 0x2F8 SFloat
       ''Drafting Minimum Speed'' None,
     MrdfFieldDef ''DraftRampSpeed'' ''DRAFTING'' 0x2FC SFloat
       ''Drafting Ramp Speed'' None,
     MrdfFieldDef ''DraftMaxSpeed'' ''DRAFTING'' 0x300 SFloat
       ''Drafting Maximum Speed'' None,
     MrdfFieldDef ''DraftMaxDistFront'' ''DRAFTING'' 0x304 SFloat
       ''Drafting Max Distance In Front'' None,
     MrdfFieldDef ''DraftMinLatFront'' ''DRAFTING'' 0x308 SFloat
       ''Drafting Min Lateral In Front'' None,
     MrdfFieldDef ''DraftMaxLatFront'' ''DRAFTING'' 0x30C SFloat
       ''Drafting Max Lateral In Front'' None,
     MrdfFieldDef ''DraftMaxDistBehind'' ''DRAFTING'' 0x310 SFloat
       ''Drafting Max Distance Behind'' None,
     MrdfFieldDef ''DraftMinLatBehind'' ''DRAFTING'' 0x314 SFloat
       ''Drafting Min Lateral Behind'' None,
     MrdfFieldDef ''DraftMaxLatBehind'' ''DRAFTING'' 0x318 SFloat
       ''Drafting Max Lateral Behind'' None,
     MrdfFieldDef ''DraftAirScale'' ''DRAFTING'' 0x31C SFloat
       ''Drafting Air Scale'' None,
     MrdfFieldDef ''LowSpeedTCAtRest'' ''ASSISTS'' 0x320 SFloat
       ''Low Speed TC At Rest'' None,
     MrdfFieldDef ''LowSpeedTCSpeedThresh'' ''ASSISTS'' 0x324 SFloat
       ''Low Speed TC Speed Threshold'' None,
     MrdfFieldDef ''LowSpeedGripAtRest'' ''ASSISTS'' 0x328 SFloat
       ''Low Speed Grip At Rest'' None,
     MrdfFieldDef ''LowSpeedGripSpeedTh'' ''ASSISTS'' 0x32C SFloat
       ''Low Speed Grip Speed Threshold'' None,
     MrdfFieldDef ''AutoResetDisableCollT'' ''RESET'' 0x330 SFloat
       ''Auto Reset - Time Collision Is Disabled (s)'' None,
     MrdfFieldDef ''AutoResetMinSpeedMPH'' ''RESET'' 0x334 SFloat
       ''Auto Reset - Minimum Speed in MPH'' None,
     MrdfFieldDef ''AutoClutch'' ''ASSISTS'' 0x378 SUint32
       ''Auto Clutch (0/1)'' None,
     MrdfFieldDef ''SteeringHelpFunction'' ''ASSISTS'' 0x37C SUint32
       ''Steering help function (int)'' None,
     MrdfFieldDef ''PhysicsTickRate'' ''PHYSICS'' 0x380 SUint32
       ''Physics tick rate'' (Some TICK_RATE),
     MrdfFieldDef ''AutoReverse'' ''ASSISTS'' 0x384 SUint32
       ''Auto reverse (0/1)'' (Some BOOL01),
     MrdfFieldDef ''AutoShiftOverrideTime'' ''ASSISTS'' 0x388 SFloat
       ''Auto shift override time (s)'' None,
     MrdfFieldDef ''ManShiftOverrideTime'' ''ASSISTS'' 0x38C SFloat
       ''Manual shift override time (s)'' None,
     MrdfFieldDef ''AIStrengthNovice'' ''AI'' 0x3B0 SFloat
       ''AI Strength Novice'' None,
     MrdfFieldDef ''AIStrengthAmateur'' ''AI'' 0x3B4 SFloat
       ''AI Strength Amateur'' None,
     MrdfFieldDef ''AIStrengthPro'' ''AI'' 0x3B8 SFloat
       ''AI Strength Pro'' None,
     MrdfFieldDef ''AIAggressionNovice'' ''AI'' 0x3BC SFloat
       ''AI Aggression Novice'' None,
     MrdfFieldDef ''AIAggressionNormal'' ''AI'' 0x3C0 SFloat
       ''AI Aggression Normal'' None,
     MrdfFieldDef ''AIAggressionXP'' ''AI'' 0x3C4 SFloat
       ''AI Aggression XP'' None,
     MrdfFieldDef ''AIAggressionPro'' ''AI'' 0x3C8 SFloat
       ''AI Aggression Pro'' None,
     MrdfFieldDef ''FuelMult'' ''AI'' 0x3D4 SUint32
       ''Fuel mult (int)'' None,
     MrdfFieldDef ''TyreMult'' ''AI'' 0x3D8 SUint32
       ''Tire mult (int)'' None]"

section \<open>Profile system\<close>

datatype mrdf_profile = MrdfProfile
  (p_key: string) (p_label: string) (p_defs: "mrdf_field_def list")

definition PROFILES :: "mrdf_profile list" where
  "PROFILES =
    [MrdfProfile ''stats'' ''Statistics MRDF'' STATS_MRDF_DEFS,
     MrdfProfile ''physics'' ''Physics Tweaker MRDF'' PHYSICS_MRDF_DEFS]"

text \<open>The loop of \<^verbatim>\<open>get_profile_by_key\<close>: the first profile with the key, if any.\<close>

fun first_with_key :: "string \<Rightarrow> mrdf_profile list \<Rightarrow> mrdf_profile option" where
  "first_with_key key [] = None"
| "first_with_key key (p # ps) = (if p_key p = key then Some p else first_with_key key ps)"

definition get_profile_by_key :: "string \<Rightarrow> mrdf_profile" where
  "get_profile_by_key key =
     (case first_with_key key PROFILES of
        Some p \<Rightarrow> p
      | None \<Rightarrow> PROFILES ! 0)"

section \<open>Strings\<close>

text \<open>
  A Python string is a list of characters, a character being a code point below 256.
  \<^verbatim>\<open>str.isspace\<close> holds there for the code points 9 to 13, 28 to 32, 133 and 160.
\<close>

definition is_space :: "char \<Rightarrow> bool" where
  "is_space c =
     (let n = (of_char c :: nat)
      in (9 \<le> n \<and> n \<le> 13) \<or> (28 \<le> n \<and> n \<le> 32) \<or> n = 133 \<or> n = 160)"

text \<open>\<^verbatim>\<open>s.strip()\<close>.\<close>

definition py_strip :: "string \<Rightarrow> string" where
  "py_strip s = rev (dropWhile is_space (rev (dropWhile is_space s)))"

text \<open>
  \<^verbatim>\<open>s.split()\<close>: the maximal runs of characters that are not whitespace; \<open>cur\<close> is the
  run being read.
\<close>

fun split_from :: "string \<Rightarrow> string \<Rightarrow> string list" where
  "split_from cur [] = (if cur = [] then [] else [cur])"
| "split_from cur (c # cs) =
     (if is_space c then (if cur = [] then split_from [] cs else cur # split_from [] cs)
      else split_from (cur @ [c]) cs)"

definition py_split :: "string \<Rightarrow> string list" where
  "py_split s = split_from [] s"

text \<open>\<^verbatim>\<open>s.replace(a, b)\<close> for single characters \<open>a\<close> and \<open>b\<close>.\<close>

definition py_replace :: "char \<Rightarrow> char \<Rightarrow> string \<Rightarrow> string" where
  "py_replace a b s = map (\<lambda>c. if c = a then b else c) s"

text \<open>
  \<^verbatim>\<open>s.lower()\<close>: the letters A to Z, and the upper-case letters of the range 192 to 222
  (215, the multiplication sign, apart), move up by 32.
\<close>

definition lower_char :: "char \<Rightarrow> char" where
  "lower_char c =
     (let n = (of_char c :: nat)
      in if (65 \<le> n \<and> n \<le> 90) \<or> (192 \<le> n \<and> n \<le> 222 \<and> n \<noteq> 215)
         then char_of (n + 32) else c)"

definition py_lower :: "string \<Rightarrow> string" where
  "py_lower s = map lower_char s"

text \<open>\<^verbatim>\<open>s.startswith(p)\<close> and \<^verbatim>\<open>p in s\<close>.\<close>

fun startswith :: "string \<Rightarrow> string \<Rightarrow> bool" where
  "startswith s [] = True"
| "startswith [] (p # ps) = False"
| "startswith (c # cs) (p # ps) = (c = p \<and> startswith cs ps)"

fun contains :: "string \<Rightarrow> string \<Rightarrow> bool" where
  "contains [] p = (p = [])"
| "contains (c # cs) p = (startswith (c # cs) p \<or> contains cs p)"

text \<open>
  \<^verbatim>\<open>int(s, base)\<close> for base 10 or 16. The value of a digit character: 0 to 9, and 10 to
  35 for the letters in either case.
\<close>

definition digit_value :: "char \<Rightarrow> nat option" where
  "digit_value c =
     (let n = (of_char c :: nat)
      in if 48 \<le> n \<and> n \<le> 57 then Some (n - 48)
         else if 97 \<le> n \<and> n \<le> 122 then Some (n - 87)
         else if 65 \<le> n \<and> n \<le> 90 then Some (n - 55)
         else None)"

text \<open>
  The digits, read from the left: single underscores may stand between digits, never
  two in a row and never at the end; any other character fails. \<open>prev_us\<close> says that the
  character before was an underscore.
\<close>

fun digits_value :: "nat \<Rightarrow> bool \<Rightarrow> int \<Rightarrow> string \<Rightarrow> int option" where
  "digits_value base prev_us acc [] = (if prev_us then None else Some acc)"
| "digits_value base prev_us acc (c # cs) =
     (if c = CHR ''_'' then (if prev_us then None else digits_value base True acc cs)
      else case digit_value c of
             None \<Rightarrow> None
           | Some d \<Rightarrow>
               if d < base then digits_value base False (acc * int base + int d) cs
               else None)"

text \<open>
  The whitespace \<^verbatim>\<open>int\<close> skips around a literal: the code points 9 to 13, 32, 133 and
  160. The separators 28 to 31, which \<^verbatim>\<open>str.isspace\<close> accepts, are not among them.
\<close>

definition is_int_space :: "char \<Rightarrow> bool" where
  "is_int_space c =
     (let n = (of_char c :: nat)
      in (9 \<le> n \<and> n \<le> 13) \<or> n = 32 \<or> n = 133 \<or> n = 160)"

definition int_strip :: "string \<Rightarrow> string" where
  "int_strip s = rev (dropWhile is_int_space (rev (dropWhile is_int_space s)))"

text \<open>
  Whitespace around the literal is dropped; then an optional sign; for base 16 an
  optional prefix \<^verbatim>\<open>0x\<close> or \<^verbatim>\<open>0X\<close>, after which one underscore is allowed; then at least
  one digit, the first character not being an underscore. \<open>None\<close> is ValueError.
\<close>

definition py_int :: "nat \<Rightarrow> string \<Rightarrow> int option" where
  "py_int base s =
     (let t = int_strip s;
          neg = startswith t ''-'';
          t1 = (if startswith t ''+'' \<or> startswith t ''-'' then tl t else t);
          t2 = (if base = 16 \<and> (startswith t1 ''0x'' \<or> startswith t1 ''0X'')
                then (let r = drop 2 t1 in if startswith r ''_'' then tl r else r)
                else t1)
      in if t2 = [] \<or> startswith t2 ''_'' then None
         else map_option (\<lambda>v. if neg then - v else v) (digits_value base False 0 t2))"

section \<open>Profile detection\<close>

text \<open>
  Comparison of Python numbers. A NaN compares false with everything; the two zeros are
  equal; an integer compares by its exact value.
\<close>

fun as_float :: "pyval \<Rightarrow> pyfloat" where
  "as_float (VInt i) = FNum (of_int i)"
| "as_float (VFloat x) = x"

fun float_lt :: "pyfloat \<Rightarrow> pyfloat \<Rightarrow> bool" where
  "float_lt (FNan _ _) _ = False"
| "float_lt _ (FNan _ _) = False"
| "float_lt (FInf a) (FInf b) = (a \<and> \<not> b)"
| "float_lt (FInf a) _ = a"
| "float_lt _ (FInf b) = (\<not> b)"
| "float_lt (FNum p) (FNum q) = (p < q)"
| "float_lt (FNum p) FNegZero = (p < 0)"
| "float_lt FNegZero (FNum q) = (0 < q)"
| "float_lt FNegZero FNegZero = False"

fun float_eq :: "pyfloat \<Rightarrow> pyfloat \<Rightarrow> bool" where
  "float_eq (FNan _ _) _ = False"
| "float_eq _ (FNan _ _) = False"
| "float_eq (FInf a) (FInf b) = (a = b)"
| "float_eq (FInf a) _ = False"
| "float_eq _ (FInf b) = False"
| "float_eq (FNum p) (FNum q) = (p = q)"
| "float_eq (FNum p) FNegZero = (p = 0)"
| "float_eq FNegZero (FNum q) = (0 = q)"
| "float_eq FNegZero FNegZero = True"

definition py_lt :: "pyval \<Rightarrow> pyval \<Rightarrow> bool" where
  "py_lt a b = float_lt (as_float a) (as_float b)"

definition py_le :: "pyval \<Rightarrow> pyval \<Rightarrow> bool" where
  "py_le a b = (float_lt (as_float a) (as_float b) \<or> float_eq (as_float a) (as_float b))"

text \<open>
  The first heuristic of \<^verbatim>\<open>detect_profile\<close>, a \<^verbatim>\<open>try\<close> block: \<open>Some\<close> profile when the
  block returns one, \<open>None\<close> when it falls through, by the test failing or by an exception
  of \<^verbatim>\<open>struct.unpack_from\<close>.
\<close>

definition physics_heuristic :: "bytes \<Rightarrow> mrdf_profile option" where
  "physics_heuristic blob =
     (case struct_unpack_from Fmt_f blob 0x0030 of
        Inl e \<Rightarrow> None
      | Inr bmin \<Rightarrow>
     (case struct_unpack_from Fmt_f blob 0x0034 of
        Inl e \<Rightarrow> None
      | Inr bmax \<Rightarrow>
     (case struct_unpack_from Fmt_f blob 0x0038 of
        Inl e \<Rightarrow> None
      | Inr ai \<Rightarrow>
     (case struct_unpack_from Fmt_f blob 0x003C of
        Inl e \<Rightarrow> None
      | Inr pl \<Rightarrow>
          if py_lt (VFloat (FNum 100)) bmin \<and> py_lt bmin (VFloat (FNum 5000))
             \<and> py_lt (VFloat (FNum 100)) bmax \<and> py_lt bmax (VFloat (FNum 10000))
             \<and> py_le (VFloat (FNum 0)) ai \<and> py_le ai (VFloat (FNum 10))
             \<and> py_le (VFloat (FNum 0)) pl \<and> py_le pl (VFloat (FNum 10))
          then Some (get_profile_by_key ''physics'')
          else None))))"

text \<open>The second heuristic, on the wheelbase of the statistics layout.\<close>

definition stats_heuristic :: "bytes \<Rightarrow> mrdf_profile option" where
  "stats_heuristic blob =
     (case struct_unpack_from Fmt_f blob 0x84 of
        Inl e \<Rightarrow> None
      | Inr wb \<Rightarrow>
          if py_lt (VFloat (FNum 1)) wb \<and> py_lt wb (VFloat (FNum 6))
          then Some (get_profile_by_key ''stats'')
          else None)"

text \<open>
  \<^verbatim>\<open>detect_profile\<close>. The path separator \<^verbatim>\<open>os.sep\<close> of the platform is the parameter
  \<open>sep\<close>.
\<close>

definition detect_profile :: "string \<Rightarrow> string \<Rightarrow> bytes \<Rightarrow> mrdf_profile" where
  "detect_profile sep file_path blob =
     (let lower = py_lower file_path in
      if contains lower ''physicstweaker'' \<or> contains lower (sep @ ''physics'' @ sep)
      then get_profile_by_key ''physics''
      else
        case physics_heuristic blob of
          Some p \<Rightarrow> p
        | None \<Rightarrow>
            (case stats_heuristic blob of
               Some p \<Rightarrow> p
             | None \<Rightarrow> get_profile_by_key ''stats''))"

section \<open>The editor\<close>

text \<open>
  The state of the edit buffer: the snapshot taken when the file was opened, the working
  copy, and the ledger of pending edits, from offset to the value last applied.
  What a handler reads from the widgets (the selected instance, the texts of the entry
  fields, the check boxes, the target range of the hex editor) is an argument of its
  model. Each handler ends by refreshing the views (\<^verbatim>\<open>refresh_parse\<close>,
  \<^verbatim>\<open>_refresh_hex_view\<close>), which read the buffers and write widgets only; that is left out.
\<close>

record editor_state =
  original_blob :: "bytes option"
  working_blob :: "bytes option"
  edits :: "int \<rightharpoonup> pyval"

record edit_form =
  bitmask_vars :: "(int \<times> bool) list"
  enum_choice_var :: string
  editor_var :: string

text \<open>
  How a handler ends: it returned without doing anything, it showed an error box, or it
  ran to its end.
\<close>

datatype outcome = Ignored | Failed error | Done

text \<open>
  The first \<^verbatim>\<open>try\<close> block of \<^verbatim>\<open>apply_edit\<close>, which reads the new value: \<open>None\<close> when
  an exception is raised in it.
\<close>

definition new_value :: "float_conv \<Rightarrow> mrdf_field_def \<Rightarrow> edit_form \<Rightarrow> pyval option" where
  "new_value conv d form =
     (if fd_name d = ''TyreAvailability'' then
        Some (VInt (fold (\<lambda>(mask, var) new_val. if var then new_val OR mask else new_val)
                      (bitmask_vars form) 0))
      else if fd_enum d \<noteq> None \<and> py_strip (enum_choice_var form) \<noteq> [] then
        (case py_split (enum_choice_var form) of
           [] \<Rightarrow> None
         | s # _ \<Rightarrow> map_option VInt (py_int 10 s))
      else
        let s = py_strip (editor_var form) in
        if fd_scalar d = SFloat then map_option VFloat (float_of_str conv s)
        else map_option VInt
               (if startswith (py_lower s) ''0x'' then py_int 16 s else py_int 10 s))"

definition apply_edit :: "float_conv \<Rightarrow> editor_state \<Rightarrow> mrdf_field_instance option \<Rightarrow> edit_form \<Rightarrow> editor_state \<times> outcome" where
  "apply_edit conv st selected form =
     (case (selected, working_blob st) of
        (Some inst, Some w) \<Rightarrow>
          let d = i_definition inst in
          (case new_value conv d form of
             None \<Rightarrow> (st, Failed ParseError)
           | Some new_val \<Rightarrow>
               (case write_scalar conv w (fd_offset d) (fd_scalar d) new_val of
                  (out, Inl e) \<Rightarrow> (st, Failed e)
                | (out, Inr packed) \<Rightarrow>
                    (st\<lparr>working_blob := Some out,
                        edits := (edits st)(fd_offset d \<mapsto> new_val)\<rparr>, Done)))
      | _ \<Rightarrow> (st, Ignored))"

definition revert_field :: "editor_state \<Rightarrow> mrdf_field_instance option \<Rightarrow> editor_state \<times> outcome" where
  "revert_field st selected =
     (case (selected, original_blob st, working_blob st) of
        (Some inst, Some orig, Some w) \<Rightarrow>
          let d = i_definition inst in
          if edits st (fd_offset d) = None then (st, Ignored)
          else
            let (f, n) = FMT (fd_scalar d);
                out = py_slice_assign w (fd_offset d) (fd_offset d + n)
                        (py_slice orig (fd_offset d) (fd_offset d + n))
            in (st\<lparr>working_blob := Some out, edits := (edits st)(fd_offset d := None)\<rparr>, Done)
      | _ \<Rightarrow> (st, Ignored))"

text \<open>
  \<^verbatim>\<open>bytes(int(p, 16) for p in parts)\<close>: every part must read as an integer, and every
  integer must be in \<open>range(0, 256)\<close>. \<open>None\<close> when an exception is raised.
\<close>

fun bytes_of_parts :: "string list \<Rightarrow> bytes option" where
  "bytes_of_parts [] = Some []"
| "bytes_of_parts (p # ps) =
     (case py_int 16 p of
        None \<Rightarrow> None
      | Some v \<Rightarrow>
          if 0 \<le> v \<and> v < 256 then map_option ((#) (word_of_int v)) (bytes_of_parts ps)
          else None)"

definition parse_hex_bytes :: "string \<Rightarrow> error + bytes" where
  "parse_hex_bytes s0 =
     (let s = py_strip s0 in
      if s = [] then Inr []
      else
        let parts = py_split (py_replace CHR '','' CHR '' '' s) in
        case bytes_of_parts parts of
          None \<Rightarrow> Inl ParseError
        | Some bs \<Rightarrow> Inr bs)"

definition apply_hex_overwrite :: "editor_state \<Rightarrow> int option \<Rightarrow> int option \<Rightarrow> string \<Rightarrow> editor_state \<times> outcome" where
  "apply_hex_overwrite st hex_sel_start hex_sel_len hex_edit_var =
     (case working_blob st of
        None \<Rightarrow> (st, Ignored)
      | Some w \<Rightarrow>
          (case (hex_sel_start, hex_sel_len) of
             (Some start, Some n) \<Rightarrow>
               (case parse_hex_bytes hex_edit_var of
                  Inl e \<Rightarrow> (st, Failed e)
                | Inr new_bytes \<Rightarrow>
                    if int (length new_bytes) \<noteq> n then (st, Failed LengthMismatch)
                    else (st\<lparr>working_blob := Some (py_slice_assign w start (start + n) new_bytes)\<rparr>,
                          Done))
           | _ \<Rightarrow> (st, Ignored)))"

section \<open>Auxiliary definitions for the statements\<close>

text \<open>
  A conversion table for the examples: the few conversions the examples need, each of
  them exact, and an exception everywhere else.
\<close>

definition sample_conv :: float_conv where
  "sample_conv =
     \<lparr>pack_f32 = (\<lambda>x. if x = FNum (241 / 2) then Some 0x42F10000
                        else if x = FNum 0 then Some 0 else None),
      float_of_int = (\<lambda>i. if i = 0 then Some (FNum 0) else None),
      float_of_str = (\<lambda>s. if s = ''120.5'' then Some (FNum (241 / 2)) else None)\<rparr>"

text \<open>
  The literal format as the specification words it: tokens separated by whitespace or
  commas, each of exactly two hexadecimal digits.
\<close>

definition is_hex_digit :: "char \<Rightarrow> bool" where
  "is_hex_digit c = (case digit_value c of None \<Rightarrow> False | Some d \<Rightarrow> d < 16)"

definition two_hex_digits :: "string \<Rightarrow> bool" where
  "two_hex_digits p = (length p = 2 \<and> list_all is_hex_digit p)"

definition spec_hex_literal :: "string \<Rightarrow> bool" where
  "spec_hex_literal s = list_all two_hex_digits (py_split (py_replace CHR '','' CHR '' '' s))"

text \<open>
  The value a kind keeps of a value, as the specification words it: a float at single
  precision, a \<^verbatim>\<open>bool32\<close> as 0 or 1, a \<^verbatim>\<open>uint8\<close> as the low 8 bits, a \<^verbatim>\<open>uint32\<close> as
  the low 32 bits, an \<^verbatim>\<open>int32\<close> as the two's-complement reading of the low 32 bits.
  \<open>None\<close> when the value does not convert to the kind at all.
\<close>

definition spec_normalized :: "float_conv \<Rightarrow> scalar \<Rightarrow> pyval \<Rightarrow> pyval option" where
  "spec_normalized conv sc v =
     (case sc of
        SFloat \<Rightarrow>
          (case py_float_of conv v of
             Inl e \<Rightarrow> None
           | Inr x \<Rightarrow> map_option (\<lambda>w. VFloat (f32_value (uint w))) (pack_f32 conv x))
      | SBool32 \<Rightarrow>
          (case py_int_of v of Inl e \<Rightarrow> None | Inr i \<Rightarrow> Some (VInt (if i = 0 then 0 else 1)))
      | SUint8 \<Rightarrow>
          (case py_int_of v of Inl e \<Rightarrow> None | Inr i \<Rightarrow> Some (VInt (i mod 2 ^ 8)))
      | SUint32 \<Rightarrow>
          (case py_int_of v of Inl e \<Rightarrow> None | Inr i \<Rightarrow> Some (VInt (i mod 2 ^ 32)))
      | SInt32 \<Rightarrow>
          (case py_int_of v of
             Inl e \<Rightarrow> None
           | Inr i \<Rightarrow> Some (VInt ((i + 2 ^ 31) mod 2 ^ 32 - 2 ^ 31))))"

text \<open>A field definition and an instance of it, for the examples.\<close>

definition sample_def :: mrdf_field_def where
  "sample_def = MrdfFieldDef ''Gear_for_100_kmh'' ''PERFORMANCE'' 2 SUint32 '''' None"

definition sample_inst :: mrdf_field_instance where
  "sample_inst =
     \<lparr>i_definition = sample_def, i_offset = 2, i_raw = [0, 0, 0, 0], i_value = VInt 0\<rparr>"

text \<open>
  Two states of the editor over a file of six zero bytes. In the first the bytes of the
  sample field were changed by a raw overwrite, which leaves the ledger empty; in the
  second by an edit of the field, which is in the ledger.
\<close>

definition overwritten_state :: editor_state where
  "overwritten_state =
     \<lparr>original_blob = Some [0, 0, 0, 0, 0, 0], working_blob = Some [0, 0, 1, 0, 0, 0],
      edits = Map.empty\<rparr>"

definition edited_state :: editor_state where
  "edited_state =
     \<lparr>original_blob = Some [0, 0, 0, 0, 0, 0], working_blob = Some [0, 0, 5, 0, 0, 0],
      edits = [2 \<mapsto> VInt 5]\<rparr>"

text \<open>
  The detection rules as the specification words them. The single-precision float at an
  offset, when the buffer holds its four bytes:
\<close>

definition f32_at :: "bytes \<Rightarrow> nat \<Rightarrow> pyfloat option" where
  "f32_at blob off =
     (if off + 4 \<le> length blob then Some (f32_value (le_int (take 4 (drop off blob))))
      else None)"

text \<open>A float that could be read and lies in the open, or in the closed, interval.\<close>

definition in_open :: "rat \<Rightarrow> rat \<Rightarrow> pyfloat option \<Rightarrow> bool" where
  "in_open lo hi x =
     (case x of None \<Rightarrow> False | Some v \<Rightarrow> float_lt (FNum lo) v \<and> float_lt v (FNum hi))"

definition in_closed :: "rat \<Rightarrow> rat \<Rightarrow> pyfloat option \<Rightarrow> bool" where
  "in_closed lo hi x =
     (case x of
        None \<Rightarrow> False
      | Some v \<Rightarrow> (float_lt (FNum lo) v \<or> float_eq (FNum lo) v)
                 \<and> (float_lt v (FNum hi) \<or> float_eq v (FNum hi)))"

definition path_hint :: "string \<Rightarrow> string \<Rightarrow> bool" where
  "path_hint sep file_path =
     (contains (py_lower file_path) ''physicstweaker''
      \<or> contains (py_lower file_path) (sep @ ''physics'' @ sep))"

definition stats_profile :: mrdf_profile where
  "stats_profile = MrdfProfile ''stats'' ''Statistics MRDF'' STATS_MRDF_DEFS"

definition physics_profile :: mrdf_profile where
  "physics_profile = MrdfProfile ''physics'' ''Physics Tweaker MRDF'' PHYSICS_MRDF_DEFS"

definition spec_detect :: "string \<Rightarrow> string \<Rightarrow> bytes \<Rightarrow> mrdf_profile" where
  "spec_detect sep file_path blob =
     (if path_hint sep file_path then physics_profile
      else if in_open 100 5000 (f32_at blob 0x30) \<and> in_open 100 10000 (f32_at blob 0x34)
              \<and> in_closed 0 10 (f32_at blob 0x38) \<and> in_closed 0 10 (f32_at blob 0x3C)
           then physics_profile
      else if in_open 1 6 (f32_at blob 0x84) then stats_profile
      else stats_profile)"

text \<open>
  A buffer of 64 bytes whose bytes from \<open>0x30\<close> on are the single-precision patterns of
  600, 1200, 1 and 1.
\<close>

definition brake_glow_blob :: bytes where
  "brake_glow_blob =
     replicate 48 0 @
     [0x00, 0x00, 0x16, 0x44, 0x00, 0x00, 0x96, 0x44,
      0x00, 0x00, 0x80, 0x3F, 0x00, 0x00, 0x80, 0x3F]"

text \<open>
  The state right after a file of six zero bytes was opened, and the form with a text in
  the value entry, no enumeration chosen and no check box.
\<close>

definition opened_state :: editor_state where
  "opened_state =
     \<lparr>original_blob = Some [0, 0, 0, 0, 0, 0], working_blob = Some [0, 0, 0, 0, 0, 0],
      edits = Map.empty\<rparr>"

definition entry_form :: "string \<Rightarrow> edit_form" where
  "entry_form txt = \<lparr>bitmask_vars = [], enum_choice_var = [], editor_var = txt\<rparr>"

definition sample_float_def :: mrdf_field_def where
  "sample_float_def = MrdfFieldDef ''TopSpeed_mps'' ''PERFORMANCE'' 0 SFloat '''' None"

definition sample_float_inst :: mrdf_field_instance where
  "sample_float_inst =
     \<lparr>i_definition = sample_float_def, i_offset = 0, i_raw = [0, 0, 0, 0],
      i_value = VFloat (FNum 0)\<rparr>"

text \<open>A field lies within a buffer.\<close>

definition fits :: "bytes \<Rightarrow> mrdf_field_def \<Rightarrow> bool" where
  "fits blob d = (0 \<le> fd_offset d \<and> fd_offset d + width (fd_scalar d) \<le> int (length blob))"

text \<open>
  A table of four definitions for a buffer of six bytes: the second does not fit, and
  the sections are not in alphabetical order.
\<close>

definition sample_defs :: "mrdf_field_def list" where
  "sample_defs =
     [MrdfFieldDef ''NumGears'' ''DRIVETRAIN'' 2 SUint32 '''' None,
      MrdfFieldDef ''Torque_lbft'' ''DRIVETRAIN'' 4 SFloat '''' None,
      MrdfFieldDef ''Flags'' ''DRIVETRAIN'' 1 SUint8 '''' None,
      MrdfFieldDef ''Wheelbase_m'' ''CHASSIS'' 2 SFloat '''' None]"

definition sample_blob :: bytes where
  "sample_blob = [7, 9, 0x00, 0x00, 0x80, 0x3F]"

text \<open>An instance holds what \<^verbatim>\<open>read_scalar\<close> returns for its definition on the buffer.\<close>

definition well_read :: "bytes \<Rightarrow> mrdf_field_instance \<Rightarrow> bool" where
  "well_read blob i \<longleftrightarrow>
     i_offset i = fd_offset (i_definition i) \<and>
     read_scalar blob (fd_offset (i_definition i)) (fd_scalar (i_definition i))
       = Inr (i_value i, i_raw i)"

text \<open>
  The tokens of a literal, and a token that \<^verbatim>\<open>int(p, 16)\<close> reads as a byte.
\<close>

definition tokens :: "string \<Rightarrow> string list" where
  "tokens s = py_split (py_replace CHR '','' CHR '' '' s)"

definition byte_token :: "string \<Rightarrow> bool" where
  "byte_token p = (case py_int 16 p of None \<Rightarrow> False | Some v \<Rightarrow> 0 \<le> v \<and> v < 256)"

text \<open>The byte a token of two hexadecimal digits stands for.\<close>

definition hex_val :: "char \<Rightarrow> nat" where
  "hex_val c = (case digit_value c of None \<Rightarrow> 0 | Some d \<Rightarrow> d)"

fun two_digit_byte :: "string \<Rightarrow> byte" where
  "two_digit_byte [a, b] = word_of_int (int (16 * hex_val a + hex_val b))"
| "two_digit_byte p = 0"

section \<open>Lemmas on bytes, slices and packing\<close>

lemma and_ff: "(i::int) AND 0xFF = i mod 256"
  using take_bit_eq_mask[of 8 i] by (simp add: take_bit_eq_mod mask_eq_exp_minus_1)

lemma and_ffffffff: "(i::int) AND 0xFFFFFFFF = i mod 2 ^ 32"
  using take_bit_eq_mask[of 32 i] by (simp add: take_bit_eq_mod mask_eq_exp_minus_1)

lemma length_le_bytes [simp]: "length (le_bytes n x) = n"
  by (induction n arbitrary: x) auto

lemma le_bytes_4:
  "le_bytes 4 x =
     [word_of_int x, word_of_int (x div 256), word_of_int (x div 256 div 256),
      word_of_int (x div 256 div 256 div 256)]"
  by (simp add: numeral_eq_Suc)

lemma le_bytes_1: "le_bytes 1 x = [word_of_int x]"
  by simp

lemma le_int_le_bytes: "le_int (le_bytes n x) = x mod 256 ^ n"
proof (induction n arbitrary: x)
  case 0 then show ?case by simp
next
  case (Suc n)
  have "uint (word_of_int x :: 8 word) = x mod 256" by (simp add: uint_word_of_int)
  then show ?case using Suc[of "x div 256"] zmod_zmult2_eq[of "256 ^ n" x 256]
    by simp
qed

lemma norm_index_nat: "0 \<le> i \<Longrightarrow> i \<le> int n \<Longrightarrow> norm_index n i = nat i"
  by (simp add: norm_index_def)

lemma py_slice_assign_in:
  assumes "0 \<le> off" "0 \<le> n" "off + n \<le> int (length xs)"
  shows "py_slice_assign xs off (off + n) ys = take (nat off) xs @ ys @ drop (nat off + nat n) xs"
  using assms by (simp add: py_slice_assign_def norm_index_nat Let_def nat_add_distrib max_def)

lemma py_slice_in:
  assumes "0 \<le> off" "0 \<le> n" "off + n \<le> int (length xs)"
  shows "py_slice xs off (off + n) = take (nat n) (drop (nat off) xs)"
  using assms by (simp add: py_slice_def norm_index_nat Let_def nat_add_distrib)

lemma width_cases: "width sc = 4 \<or> width sc = 1"
  by (cases sc) (simp_all add: width_def)

lemma struct_pack_int_length:
  "struct_pack_int f x = Inr bs \<Longrightarrow> f = fst (FMT sc) \<Longrightarrow> int (length bs) = width sc"
  by (cases sc) (auto simp: width_def split: if_splits)

lemma struct_pack_float_length:
  "struct_pack_float conv x = Inr bs \<Longrightarrow> length bs = 4"
  by (auto simp: struct_pack_float_def split: option.splits)

lemma write_scalar_cases:
  assumes "0 \<le> off" and "off + width sc \<le> int (length buf)"
  shows "(\<exists>e. write_scalar conv buf off sc v = (buf, Inl e)) \<or>
         (\<exists>bs. int (length bs) = width sc \<and>
               write_scalar conv buf off sc v =
                 (take (nat off) buf @ bs @ drop (nat off + nat (width sc)) buf, Inr bs))"
proof -
  obtain f n where fn: "FMT sc = (f, n)" by (cases "FMT sc")
  then have n: "n = width sc" and f: "f = fst (FMT sc)" by (simp_all add: width_def)
  have w0: "0 \<le> width sc" using width_cases[of sc] by auto
  define packed where "packed =
          (if sc = SFloat then
             (case py_float_of conv v of
                Inl e \<Rightarrow> Inl e
              | Inr x \<Rightarrow> struct_pack_float conv x)
           else if sc = SUint8 then
             (case py_int_of v of
                Inl e \<Rightarrow> Inl e
              | Inr i \<Rightarrow> struct_pack_int f (i AND 0xFF))
           else
             (case py_int_of v of
                Inl e \<Rightarrow> Inl e
              | Inr i \<Rightarrow>
                  let iv = (if sc = SBool32 then (if i \<noteq> 0 then 1 else 0) else i)
                  in struct_pack_int f (iv AND 0xFFFFFFFF)))"
  have ws: "write_scalar conv buf off sc v =
      (case packed of Inl e \<Rightarrow> (buf, Inl e)
       | Inr bs \<Rightarrow> (py_slice_assign buf off (off + width sc) bs, Inr bs))"
    using assms fn n by (simp add: write_scalar_def packed_def Let_def)
  have len: "int (length bs) = width sc" if "packed = Inr bs" for bs
  proof (cases "sc = SFloat")
    case True
    with that have "length bs = 4"
      by (auto simp: packed_def split: sum.splits dest: struct_pack_float_length)
    with True show ?thesis by (simp add: width_def)
  next
    case False
    with that obtain x where "struct_pack_int f x = Inr bs"
      by (auto simp: packed_def Let_def split: sum.splits if_splits)
    then show ?thesis using f by (rule struct_pack_int_length)
  qed
  show ?thesis
  proof (cases packed)
    case (Inl e)
    then show ?thesis using ws by simp
  next
    case (Inr bs)
    then show ?thesis using ws len[OF Inr] py_slice_assign_in[OF assms(1) w0 assms(2)]
      by simp
  qed
qed

section \<open>The scalar codec\<close>

text \<open>
  The frame of \<^verbatim>\<open>write_scalar\<close>. For every buffer, scalar kind, value and offset with
  \<open>0 \<le> offset\<close> and \<open>offset + width(kind) \<le> len(buffer)\<close>, the call leaves the length of
  the buffer unchanged and every byte outside \<open>[offset, offset + width(kind))\<close> equal to
  its prior value; the bytes it returns, when it returns, are exactly \<open>width(kind)\<close> many
  and are the bytes of the buffer at the offset afterwards. When the call raises instead,
  the buffer is as before.
\<close>

theorem write_scalar_frame:
  assumes "0 \<le> off" and "off + width sc \<le> int (length buf)"
  shows "length (fst (write_scalar conv buf off sc v)) = length buf
       \<and> (\<forall>i < length buf. int i < off \<or> off + width sc \<le> int i \<longrightarrow>
              fst (write_scalar conv buf off sc v) ! i = buf ! i)
       \<and> (\<forall>bs. snd (write_scalar conv buf off sc v) = Inr bs \<longrightarrow>
              int (length bs) = width sc \<and>
              py_slice (fst (write_scalar conv buf off sc v)) off (off + width sc) = bs)
       \<and> (\<forall>e. snd (write_scalar conv buf off sc v) = Inl e \<longrightarrow>
              fst (write_scalar conv buf off sc v) = buf)"
proof -
  have w0: "0 \<le> width sc" using width_cases[of sc] by auto
  from write_scalar_cases[OF assms, of conv v] show ?thesis
  proof (elim disjE exE conjE)
    fix e assume "write_scalar conv buf off sc v = (buf, Inl e)"
    then show ?thesis by simp
  next
    fix bs
    assume len: "int (length bs) = width sc"
      and ws: "write_scalar conv buf off sc v =
                 (take (nat off) buf @ bs @ drop (nat off + nat (width sc)) buf, Inr bs)"
    let ?r = "take (nat off) buf @ bs @ drop (nat off + nat (width sc)) buf"
    have lb: "length bs = nat (width sc)" using len by simp
    have le: "nat off + nat (width sc) \<le> length buf" using assms w0 by linarith
    have l: "length ?r = length buf" using lb le by simp
    have frame: "?r ! i = buf ! i" if "i < length buf" "int i < off \<or> off + width sc \<le> int i" for i
    proof (cases "int i < off")
      case True
      then have "i < nat off" by linarith
      then show ?thesis using le by (simp add: nth_append)
    next
      case False
      with that have ge: "nat off + nat (width sc) \<le> i" using assms w0 by linarith
      then have "\<not> i < nat off" and "\<not> i - nat off < length bs"
        using lb by linarith+
      then have "?r ! i = drop (nat off + nat (width sc)) buf ! (i - nat off - nat (width sc))"
        using le lb by (simp add: nth_append)
      also have "\<dots> = buf ! i" using ge that(1) by simp
      finally show ?thesis .
    qed
    have sl: "py_slice ?r off (off + width sc) = bs"
      using py_slice_in[of off "width sc" ?r] assms w0 l lb le by simp
    show ?thesis using ws l frame sl len by simp
  qed
qed

theorem write_scalar_frame_witness:
  "(0::int) \<le> 1 \<and> 1 + width SUint32 \<le> int (length [9, 9, 9, 9, 9, 9 :: byte])
   \<and> length (fst (write_scalar sample_conv [9, 9, 9, 9, 9, 9] 1 SUint32 (VInt 258))) = 6
   \<and> fst (write_scalar sample_conv [9, 9, 9, 9, 9, 9] 1 SUint32 (VInt 258)) ! 5 = 9
   \<and> snd (write_scalar sample_conv [9, 9, 9, 9, 9, 9] 1 SUint32 (VInt 258)) = Inr [2, 1, 0, 0]
   \<and> py_slice (fst (write_scalar sample_conv [9, 9, 9, 9, 9, 9] 1 SUint32 (VInt 258))) 1 5 = [2, 1, 0, 0]"
proof -
  let ?buf = "[9, 9, 9, 9, 9, 9 :: byte]"
  let ?w = "write_scalar sample_conv ?buf 1 SUint32 (VInt 258)"
  have b: "(0::int) \<le> 1" "1 + width SUint32 \<le> int (length ?buf)"
    by (simp_all add: width_def)
  have r: "snd ?w = Inr [2, 1, 0, 0]"
    by (simp add: write_scalar_def and_ffffffff le_bytes_4)
  note t = write_scalar_frame [OF b, of sample_conv "VInt 258"]
  from t have l: "length (fst ?w) = length ?buf" by (rule conjunct1)
  from t have "\<forall>i<length ?buf. int i < 1 \<or> 1 + width SUint32 \<le> int i \<longrightarrow> fst ?w ! i = ?buf ! i"
    by blast
  then have "5 < length ?buf \<longrightarrow> int 5 < 1 \<or> 1 + width SUint32 \<le> int 5 \<longrightarrow> fst ?w ! 5 = ?buf ! 5"
    by blast
  then have f: "fst ?w ! 5 = 9" by (simp add: width_def)
  from t r have "py_slice (fst ?w) 1 (1 + width SUint32) = [2, 1, 0, 0]" by blast
  then have s: "py_slice (fst ?w) 1 5 = [2, 1, 0, 0]" by (simp add: width_def)
  from b l f r s show ?thesis by simp
qed

text \<open>
  Claim C1. An in-bounds encode should write exactly \<open>width(kind)\<close> bytes at the offset for
  every value. Theorem \<open>write_scalar_frame\<close> gives the frame, and the bytes whenever the
  call returns. It does not return for an \<^verbatim>\<open>int32\<close> whose low 32 bits are \<open>2^31\<close> or more:
  the value is masked to an unsigned number and then packed with the signed format. For
  the value \<open>-1\<close> at an in-bounds offset the call raises and writes nothing: the four bytes
  at the offset are as before, not the bytes \<open>FF FF FF FF\<close> of the value.
\<close>

theorem write_scalar_int32_writes_nothing:
  "(0::int) \<le> 1 \<and> 1 + width SInt32 \<le> int (length [9, 9, 9, 9, 9, 9 :: byte])
   \<and> write_scalar sample_conv [9, 9, 9, 9, 9, 9] 1 SInt32 (VInt (- 1))
       = ([9, 9, 9, 9, 9, 9], Inl StructError)
   \<and> py_slice (fst (write_scalar sample_conv [9, 9, 9, 9, 9, 9] 1 SInt32 (VInt (- 1)))) 1
        (1 + width SInt32) = [9, 9, 9, 9]
   \<and> le_bytes 4 (- 1) = [0xFF, 0xFF, 0xFF, 0xFF]"
  by (simp add: write_scalar_def and_ffffffff width_def py_slice_def norm_index_def le_bytes_4)

lemma width_eq_fmt_size: "FMT sc = (f, n) \<Longrightarrow> n = int (fmt_size f)"
  by (cases sc) (auto simp: fmt_size_def)

lemma read_scalar_in_bounds:
  assumes "0 \<le> off" and "off + width sc \<le> int (length blob)"
  shows "read_scalar blob off sc =
           Inr (let v = decode_fmt (fst (FMT sc)) (take (nat (width sc)) (drop (nat off) blob))
                in (if sc = SBool32 then VInt (if le_int (take 4 (drop (nat off) blob)) \<noteq> 0 then 1 else 0) else v),
                take (nat (width sc)) (drop (nat off) blob))"
proof -
  have w0: "0 \<le> width sc" using width_cases[of sc] by auto
  have sl: "py_slice blob off (off + width sc) = take (nat (width sc)) (drop (nat off) blob)"
    using py_slice_in[OF assms(1) w0 assms(2)] .
  have le: "nat off + nat (width sc) \<le> length blob" using assms w0 by linarith
  show ?thesis
    using assms sl le
    by (cases sc) (simp_all add: read_scalar_def width_def struct_unpack_from_def fmt_size_def
        decode_fmt_def Let_def)
qed

lemma read_scalar_out_of_bounds_iff:
  "read_scalar blob off sc = Inl OutOfBounds \<longleftrightarrow> off < 0 \<or> int (length blob) < off + width sc"
proof (cases "off < 0 \<or> int (length blob) < off + width sc")
  case True
  then show ?thesis by (auto simp: read_scalar_def width_def split: prod.splits)
next
  case False
  then have "0 \<le> off" "off + width sc \<le> int (length blob)" by auto
  from read_scalar_in_bounds[OF this] False show ?thesis by simp
qed

lemma read_scalar_fails_iff:
  "(\<exists>e. read_scalar blob off sc = Inl e) \<longleftrightarrow> off < 0 \<or> int (length blob) < off + width sc"
proof (cases "off < 0 \<or> int (length blob) < off + width sc")
  case True
  then show ?thesis by (auto simp: read_scalar_def width_def split: prod.splits)
next
  case False
  then have "0 \<le> off" "off + width sc \<le> int (length blob)" by auto
  from read_scalar_in_bounds[OF this] False show ?thesis by simp
qed

lemma struct_pack_int_error: "struct_pack_int f x = Inl e \<Longrightarrow> e = StructError"
  by (cases f) (auto split: if_splits)

lemma py_int_of_error: "py_int_of v = Inl e \<Longrightarrow> e = ConversionError"
  by (cases v rule: py_int_of.cases) auto

lemma py_float_of_error: "py_float_of conv v = Inl e \<Longrightarrow> e = ConversionError"
  by (cases v) (auto split: option.splits)

lemma struct_pack_float_error: "struct_pack_float conv x = Inl e \<Longrightarrow> e = ConversionError"
  by (auto simp: struct_pack_float_def split: option.splits)

lemma write_scalar_out_of_bounds_iff:
  "snd (write_scalar conv buf off sc v) = Inl OutOfBounds \<longleftrightarrow>
     off < 0 \<or> int (length buf) < off + width sc"
proof (cases "off < 0 \<or> int (length buf) < off + width sc")
  case True
  then show ?thesis by (auto simp: write_scalar_def width_def split: prod.splits)
next
  case False
  obtain f n where fn: "FMT sc = (f, n)" by (cases "FMT sc")
  then have n: "n = width sc" by (simp add: width_def)
  have "snd (write_scalar conv buf off sc v) \<noteq> Inl OutOfBounds"
    using False fn n
    by (auto simp: write_scalar_def Let_def split: sum.splits
        dest: struct_pack_int_error py_int_of_error py_float_of_error struct_pack_float_error)
  with False show ?thesis by simp
qed

lemma write_scalar_int_succeeds:
  assumes "0 \<le> off" and "off + width sc \<le> int (length buf)"
    and "sc = SUint8 \<or> sc = SUint32 \<or> sc = SBool32"
  shows "\<exists>bs. snd (write_scalar conv buf off sc (VInt i)) = Inr bs"
  using assms
  by (auto simp: write_scalar_def width_def Let_def and_ff and_ffffffff)

lemma write_scalar_Inr:
  assumes "0 \<le> off" and "off + width sc \<le> int (length buf)"
    and "write_scalar conv buf off sc v = (buf', Inr bs)"
  shows "buf' = take (nat off) buf @ bs @ drop (nat off + nat (width sc)) buf"
    and "int (length bs) = width sc"
  using write_scalar_cases[OF assms(1,2), of conv v] assms(3) by auto

lemma write_scalar_packed:
  assumes "0 \<le> off" and "off + width sc \<le> int (length buf)"
    and "write_scalar conv buf off sc v = (buf', Inr bs)"
  shows "case sc of
           SFloat \<Rightarrow> (\<exists>x w. py_float_of conv v = Inr x \<and> pack_f32 conv x = Some w \<and> bs = le_bytes 4 (uint w))
         | SUint8 \<Rightarrow> (\<exists>i. py_int_of v = Inr i \<and> bs = le_bytes 1 (i mod 2 ^ 8))
         | SUint32 \<Rightarrow> (\<exists>i. py_int_of v = Inr i \<and> bs = le_bytes 4 (i mod 2 ^ 32))
         | SBool32 \<Rightarrow> (\<exists>i. py_int_of v = Inr i \<and> bs = le_bytes 4 (if i \<noteq> 0 then 1 else 0))
         | SInt32 \<Rightarrow> (\<exists>i. py_int_of v = Inr i \<and> i mod 2 ^ 32 < 2 ^ 31 \<and> bs = le_bytes 4 (i mod 2 ^ 32))"
  using assms
  by (cases sc)
     (auto simp: write_scalar_def width_def Let_def and_ff and_ffffffff struct_pack_float_def
           split: sum.splits option.splits if_splits)

lemma read_scalar_of_written:
  assumes "0 \<le> off" and "off + width sc \<le> int (length buf)" and "int (length bs) = width sc"
  shows "read_scalar (take (nat off) buf @ bs @ drop (nat off + nat (width sc)) buf) off sc =
           Inr (if sc = SBool32 then VInt (if le_int bs \<noteq> 0 then 1 else 0)
                else decode_fmt (fst (FMT sc)) bs, bs)"
proof -
  let ?r = "take (nat off) buf @ bs @ drop (nat off + nat (width sc)) buf"
  have w0: "0 \<le> width sc" using width_cases[of sc] by auto
  have lb: "length bs = nat (width sc)" using assms(3) by simp
  have le: "nat off + nat (width sc) \<le> length buf" using assms w0 by linarith
  have l: "length ?r = length buf" using lb le by simp
  have t: "take (nat (width sc)) (drop (nat off) ?r) = bs" using lb le by simp
  have t4: "sc = SBool32 \<Longrightarrow> take 4 (drop (nat off) ?r) = bs"
    using t by (simp add: width_def)
  have "off + width sc \<le> int (length ?r)" using l assms(2) by simp
  from read_scalar_in_bounds[OF assms(1) this] t t4 show ?thesis
    by (simp add: Let_def)
qed

lemma read_after_write:
  assumes "0 \<le> off" and "off + width sc \<le> int (length buf)"
    and "write_scalar conv buf off sc v = (buf', Inr bs)"
  shows "\<exists>nv. spec_normalized conv sc v = Some nv \<and> read_scalar buf' off sc = Inr (nv, bs)"
proof -
  note w = write_scalar_Inr[OF assms]
  note p = write_scalar_packed[OF assms]
  have r: "read_scalar buf' off sc =
           Inr (if sc = SBool32 then VInt (if le_int bs \<noteq> 0 then 1 else 0)
                else decode_fmt (fst (FMT sc)) bs, bs)"
    unfolding w(1) by (rule read_scalar_of_written[OF assms(1,2) w(2)])
  show ?thesis
  proof (cases sc)
    case SFloat
    with p obtain x w where "py_float_of conv v = Inr x" "pack_f32 conv x = Some w"
      "bs = le_bytes 4 (uint w)" by auto
    moreover have "uint w mod 256 ^ 4 = uint w"
      using uint_bounded[of w] by simp
    ultimately show ?thesis using r SFloat
      by (simp add: spec_normalized_def decode_fmt_def le_int_le_bytes)
  next
    case SInt32
    with p obtain i where i: "py_int_of v = Inr i" "i mod 2 ^ 32 < 2 ^ 31" "bs = le_bytes 4 (i mod 2 ^ 32)"
      by auto
    have "(i + 2 ^ 31) mod 2 ^ 32 - 2 ^ 31 = i mod 2 ^ 32"
    proof -
      have "0 \<le> i mod 2 ^ 32" by simp
      then have "(i mod 2 ^ 32 + 2 ^ 31) mod 2 ^ 32 = i mod 2 ^ 32 + 2 ^ 31"
        using i(2) by (intro mod_pos_pos_trivial) auto
      moreover have "(i + 2 ^ 31) mod 2 ^ 32 = (i mod 2 ^ 32 + 2 ^ 31) mod 2 ^ 32"
        by (simp add: mod_add_left_eq)
      ultimately show ?thesis by simp
    qed
    then show ?thesis using r SInt32 i
      by (simp add: spec_normalized_def decode_fmt_def le_int_le_bytes)
  next
    case SUint32
    with p obtain i where "py_int_of v = Inr i" "bs = le_bytes 4 (i mod 2 ^ 32)" by auto
    then show ?thesis using r SUint32
      by (simp add: spec_normalized_def decode_fmt_def le_int_le_bytes)
  next
    case SBool32
    with p obtain i where "py_int_of v = Inr i" "bs = le_bytes 4 (if i \<noteq> 0 then 1 else 0)" by auto
    then show ?thesis using r SBool32
      by (simp add: spec_normalized_def le_int_le_bytes)
  next
    case SUint8
    with p obtain i where "py_int_of v = Inr i" "bs = le_bytes 1 (i mod 2 ^ 8)" by auto
    then show ?thesis using r SUint8
      by (simp add: spec_normalized_def decode_fmt_def uint_word_of_int)
  qed
qed

text \<open>
  Claim C2. Decoding at an offset after encoding a value there should return the value
  normalised for the kind. Lemma \<open>read_after_write\<close> shows it whenever \<^verbatim>\<open>write_scalar\<close>
  returns. It does not return for an \<^verbatim>\<open>int32\<close> whose low 32 bits are \<open>2^31\<close> or more: the
  value is masked to an unsigned number and then packed with the signed format. For the
  value \<open>-1\<close> the call raises, the buffer keeps its zeros, and the decode gives \<open>0\<close>, not
  the \<open>-1\<close> of the two's-complement reading.
\<close>

theorem read_after_write_int32_negative:
  "(0::int) \<le> 0 \<and> 0 + width SInt32 \<le> int (length [0, 0, 0, 0 :: byte])
   \<and> snd (write_scalar sample_conv [0, 0, 0, 0] 0 SInt32 (VInt (- 1))) = Inl StructError
   \<and> read_scalar (fst (write_scalar sample_conv [0, 0, 0, 0] 0 SInt32 (VInt (- 1)))) 0 SInt32
       = Inr (VInt 0, [0, 0, 0, 0])
   \<and> spec_normalized sample_conv SInt32 (VInt (- 1)) = Some (VInt (- 1))"
  by (simp add: write_scalar_def and_ffffffff width_def read_scalar_def struct_unpack_from_def
      decode_fmt_def fmt_size_def py_slice_def norm_index_def spec_normalized_def)

text \<open>
  Claim C4. Reads and writes fail with the bounds error exactly when the offset is
  negative or the field runs past the end (lemmas \<open>read_scalar_out_of_bounds_iff\<close>,
  \<open>read_scalar_fails_iff\<close> and \<open>write_scalar_out_of_bounds_iff\<close>), and an in-bounds write of
  any integer returns for \<^verbatim>\<open>uint8\<close>, \<^verbatim>\<open>uint32\<close> and \<^verbatim>\<open>bool32\<close>
  (lemma \<open>write_scalar_int_succeeds\<close>). For \<^verbatim>\<open>int32\<close> it does not: the in-bounds write of
  \<open>-1\<close>, masked to \<open>4294967295\<close>, is refused by the signed format with a range error.
\<close>

theorem write_scalar_int32_range_error:
  "(0::int) \<le> 0 \<and> 0 + width SInt32 \<le> int (length [0, 0, 0, 0 :: byte])
   \<and> (- 1 :: int) AND 0xFFFFFFFF = 4294967295
   \<and> struct_pack_int Fmt_i 4294967295 = Inl StructError
   \<and> write_scalar sample_conv [0, 0, 0, 0] 0 SInt32 (VInt (- 1)) = ([0, 0, 0, 0], Inl StructError)"
  by (simp add: write_scalar_def and_ffffffff width_def)

lemma py_slice_assign_length:
  assumes "0 \<le> off" "0 \<le> n" "off + n \<le> int (length xs)" "int (length ys) = n"
  shows "length (py_slice_assign xs off (off + n) ys) = length xs"
  using assms by (simp add: py_slice_assign_in)

lemma py_slice_of_assign:
  assumes "0 \<le> off" "0 \<le> n" "off + n \<le> int (length xs)" "int (length ys) = n"
  shows "py_slice (py_slice_assign xs off (off + n) ys) off (off + n) = ys"
proof -
  have le: "nat off + nat n \<le> length xs" and lb: "length ys = nat n"
    using assms by linarith+
  have a: "py_slice_assign xs off (off + n) ys = take (nat off) xs @ ys @ drop (nat off + nat n) xs"
    using assms by (simp add: py_slice_assign_in)
  have "off + n \<le> int (length (py_slice_assign xs off (off + n) ys))"
    using assms by (simp add: py_slice_assign_length)
  then have "py_slice (py_slice_assign xs off (off + n) ys) off (off + n) =
      take (nat n) (drop (nat off) (py_slice_assign xs off (off + n) ys))"
    using assms by (intro py_slice_in) auto
  also have "\<dots> = ys" unfolding a using le lb by simp
  finally show ?thesis .
qed

lemma py_slice_assign_outside:
  assumes "0 \<le> off" "0 \<le> n" "off + n \<le> int (length xs)" "int (length ys) = n"
    and "i < length xs" and "int i < off \<or> off + n \<le> int i"
  shows "py_slice_assign xs off (off + n) ys ! i = xs ! i"
proof -
  let ?r = "take (nat off) xs @ ys @ drop (nat off + nat n) xs"
  have lb: "length ys = nat n" using assms by simp
  have le: "nat off + nat n \<le> length xs" using assms by linarith
  have "?r ! i = xs ! i"
  proof (cases "int i < off")
    case True
    then have "i < nat off" by linarith
    then show ?thesis using le by (simp add: nth_append)
  next
    case False
    with assms have ge: "nat off + nat n \<le> i" by linarith
    then have "\<not> i < nat off" and "\<not> i - nat off < length ys"
      using lb by linarith+
    then have "?r ! i = drop (nat off + nat n) xs ! (i - nat off - nat n)"
      using le lb by (simp add: nth_append)
    also have "\<dots> = xs ! i" using ge assms(5) by simp
    finally show ?thesis .
  qed
  then show ?thesis using assms by (simp add: py_slice_assign_in)
qed

lemma py_slice_length:
  assumes "0 \<le> off" "0 \<le> n" "off + n \<le> int (length xs)"
  shows "int (length (py_slice xs off (off + n))) = n"
proof -
  have "nat off + nat n \<le> length xs" using assms by linarith
  then show ?thesis using assms by (simp add: py_slice_in)
qed

text \<open>
  Claim C3. \<^verbatim>\<open>revert_field\<close> returns at once when the offset of the selected field has no
  entry in the ledger, so the restore does not always happen: after a raw overwrite of the
  bytes of the field, which writes no entry, the working bytes of the field stay different
  from the snapshot.
\<close>

theorem revert_field_unedited_counterexample:
  "original_blob overwritten_state = Some [0, 0, 0, 0, 0, 0]
   \<and> working_blob overwritten_state = Some [0, 0, 1, 0, 0, 0]
   \<and> revert_field overwritten_state (Some sample_inst) = (overwritten_state, Ignored)
   \<and> py_slice [0, 0, 1, 0, 0, 0 :: byte] 2 (2 + width SUint32)
       \<noteq> py_slice [0, 0, 0, 0, 0, 0] 2 (2 + width SUint32)"
  by (simp add: revert_field_def overwritten_state_def sample_inst_def sample_def_def width_def
      py_slice_def norm_index_def)

text \<open>
  Claim C3 as amended. For a loaded state and a selected field: when the offset of the field
  has no entry in the ledger, \<^verbatim>\<open>revert_field\<close> changes nothing; when it has one, the entry
  is removed, the snapshot is kept, and the slice of the working buffer at the field is
  replaced by the same slice of the snapshot. If the field lies within both buffers, the
  working buffer keeps its length, equals the snapshot on \<open>[offset, offset + width)\<close> and
  is unchanged elsewhere.
\<close>

theorem revert_field_pending:
  assumes "original_blob st = Some orig" and "working_blob st = Some w"
    and "i_definition inst = d"
  shows "(edits st (fd_offset d) = None \<longrightarrow> revert_field st (Some inst) = (st, Ignored))
       \<and> (edits st (fd_offset d) \<noteq> None \<longrightarrow>
            snd (revert_field st (Some inst)) = Done
          \<and> original_blob (fst (revert_field st (Some inst))) = Some orig
          \<and> edits (fst (revert_field st (Some inst))) = (edits st)(fd_offset d := None)
          \<and> working_blob (fst (revert_field st (Some inst))) =
               Some (py_slice_assign w (fd_offset d) (fd_offset d + width (fd_scalar d))
                       (py_slice orig (fd_offset d) (fd_offset d + width (fd_scalar d))))
          \<and> (0 \<le> fd_offset d \<and> fd_offset d + width (fd_scalar d) \<le> int (length orig)
               \<and> fd_offset d + width (fd_scalar d) \<le> int (length w) \<longrightarrow>
               (\<exists>w'. working_blob (fst (revert_field st (Some inst))) = Some w'
                 \<and> length w' = length w
                 \<and> py_slice w' (fd_offset d) (fd_offset d + width (fd_scalar d))
                     = py_slice orig (fd_offset d) (fd_offset d + width (fd_scalar d))
                 \<and> (\<forall>i < length w. int i < fd_offset d \<or> fd_offset d + width (fd_scalar d) \<le> int i
                       \<longrightarrow> w' ! i = w ! i))))"
proof -
  let ?off = "fd_offset d" and ?n = "width (fd_scalar d)"
  let ?out = "py_slice_assign w ?off (?off + ?n) (py_slice orig ?off (?off + ?n))"
  have w0: "0 \<le> ?n" using width_cases[of "fd_scalar d"] by auto
  have none: "revert_field st (Some inst) = (st, Ignored)" if "edits st ?off = None"
    using that assms by (simp add: revert_field_def)
  have some: "revert_field st (Some inst) =
      (st\<lparr>working_blob := Some ?out, edits := (edits st)(?off := None)\<rparr>, Done)"
    if "edits st ?off \<noteq> None"
    using that assms by (auto simp: revert_field_def width_def Let_def split: prod.splits)
  have inb: "length ?out = length w
      \<and> py_slice ?out ?off (?off + ?n) = py_slice orig ?off (?off + ?n)
      \<and> (\<forall>i < length w. int i < ?off \<or> ?off + ?n \<le> int i \<longrightarrow> ?out ! i = w ! i)"
    if b: "0 \<le> ?off" "?off + ?n \<le> int (length orig)" "?off + ?n \<le> int (length w)"
  proof -
    note l = py_slice_length[OF b(1) w0 b(2)]
    show ?thesis
      using py_slice_assign_length[OF b(1) w0 b(3) l] py_slice_of_assign[OF b(1) w0 b(3) l]
        py_slice_assign_outside[OF b(1) w0 b(3) l]
      by blast
  qed
  show ?thesis using none some inb assms(1) by simp
qed

theorem revert_field_pending_witness:
  "original_blob edited_state = Some [0, 0, 0, 0, 0, 0]
   \<and> working_blob edited_state = Some [0, 0, 5, 0, 0, 0]
   \<and> i_definition sample_inst = sample_def
   \<and> edits edited_state (fd_offset sample_def) \<noteq> None
   \<and> snd (revert_field edited_state (Some sample_inst)) = Done
   \<and> edits (fst (revert_field edited_state (Some sample_inst))) (fd_offset sample_def) = None
   \<and> working_blob (fst (revert_field edited_state (Some sample_inst))) = Some [0, 0, 0, 0, 0, 0]"
proof -
  have h: "original_blob edited_state = Some [0, 0, 0, 0, 0, 0]"
    "working_blob edited_state = Some [0, 0, 5, 0, 0, 0]"
    "i_definition sample_inst = sample_def"
    by (simp_all add: edited_state_def sample_inst_def)
  have e: "edits edited_state (fd_offset sample_def) \<noteq> None"
    by (simp add: edited_state_def sample_def_def)
  from revert_field_pending [OF h] e
  have "snd (revert_field edited_state (Some sample_inst)) = Done
      \<and> edits (fst (revert_field edited_state (Some sample_inst)))
          = (edits edited_state)(fd_offset sample_def := None)
      \<and> working_blob (fst (revert_field edited_state (Some sample_inst))) =
           Some (py_slice_assign [0, 0, 5, 0, 0, 0] (fd_offset sample_def)
                   (fd_offset sample_def + width (fd_scalar sample_def))
                   (py_slice [0, 0, 0, 0, 0, 0] (fd_offset sample_def)
                      (fd_offset sample_def + width (fd_scalar sample_def))))"
    by blast
  then show ?thesis using h e
    by (simp add: sample_def_def width_def py_slice_def py_slice_assign_def norm_index_def)
qed

lemma get_profile_by_key_physics: "get_profile_by_key ''physics'' = physics_profile"
  by (simp add: get_profile_by_key_def PROFILES_def physics_profile_def)

lemma get_profile_by_key_stats: "get_profile_by_key ''stats'' = stats_profile"
  by (simp add: get_profile_by_key_def PROFILES_def stats_profile_def)

text \<open>
  Claim C10. For every key, \<^verbatim>\<open>get_profile_by_key\<close> returns a registered profile: the one
  with that key if there is one, and otherwise the first registered profile, the
  statistics profile.
\<close>

theorem get_profile_by_key_spec:
  "get_profile_by_key key \<in> set PROFILES
   \<and> (\<forall>p \<in> set PROFILES. p_key p = key \<longrightarrow> get_profile_by_key key = p)
   \<and> ((\<forall>p \<in> set PROFILES. p_key p \<noteq> key) \<longrightarrow>
        get_profile_by_key key = PROFILES ! 0 \<and> PROFILES ! 0 = stats_profile)"
  by (auto simp: get_profile_by_key_def PROFILES_def stats_profile_def)

theorem get_profile_by_key_spec_witness:
  "physics_profile \<in> set PROFILES \<and> p_key physics_profile = ''physics''
   \<and> get_profile_by_key ''physics'' = physics_profile
   \<and> p_key stats_profile \<noteq> ''gearbox'' \<and> p_key physics_profile \<noteq> ''gearbox''
   \<and> get_profile_by_key ''gearbox'' = stats_profile"
proof -
  have m: "physics_profile \<in> set PROFILES" "p_key physics_profile = ''physics''"
    by (simp_all add: PROFILES_def physics_profile_def)
  have n: "p_key stats_profile \<noteq> ''gearbox''" "p_key physics_profile \<noteq> ''gearbox''"
    by (simp_all add: stats_profile_def physics_profile_def)
  then have a: "\<forall>p \<in> set PROFILES. p_key p \<noteq> ''gearbox''"
    by (simp add: PROFILES_def stats_profile_def physics_profile_def)
  from get_profile_by_key_spec [of "''physics''"] m
  have p: "get_profile_by_key ''physics'' = physics_profile" by blast
  from get_profile_by_key_spec [of "''gearbox''"] a
  have g: "get_profile_by_key ''gearbox'' = stats_profile" by metis
  from m n p g show ?thesis by simp
qed

lemma struct_unpack_from_f:
  "struct_unpack_from Fmt_f blob off = (case f32_at blob off of None \<Rightarrow> Inl StructError | Some v \<Rightarrow> Inr (VFloat v))"
  by (simp add: struct_unpack_from_def f32_at_def fmt_size_def decode_fmt_def)

lemma physics_heuristic_eq:
  "physics_heuristic blob =
     (if in_open 100 5000 (f32_at blob 0x30) \<and> in_open 100 10000 (f32_at blob 0x34)
         \<and> in_closed 0 10 (f32_at blob 0x38) \<and> in_closed 0 10 (f32_at blob 0x3C)
      then Some physics_profile else None)"
  by (simp add: physics_heuristic_def struct_unpack_from_f in_open_def in_closed_def py_lt_def
      py_le_def get_profile_by_key_physics split: option.splits)

lemma stats_heuristic_eq:
  "stats_heuristic blob = (if in_open 1 6 (f32_at blob 0x84) then Some stats_profile else None)"
  by (simp add: stats_heuristic_def struct_unpack_from_f in_open_def py_lt_def
      get_profile_by_key_stats split: option.splits)

lemma detect_profile_eq_spec: "detect_profile sep file_path blob = spec_detect sep file_path blob"
  by (simp add: detect_profile_def spec_detect_def path_hint_def physics_heuristic_eq
      stats_heuristic_eq get_profile_by_key_physics get_profile_by_key_stats Let_def)

lemma f32_at_short: "length blob < off + 4 \<Longrightarrow> f32_at blob off = None"
  by (simp add: f32_at_def)

text \<open>
  Claim C6. \<^verbatim>\<open>detect_profile\<close> is a total function of the path and the buffer, and it
  follows the rules in their order: the path hint selects physics; else the four floats at
  \<open>0x30\<close>, \<open>0x34\<close>, \<open>0x38\<close>, \<open>0x3C\<close> in \<open>(100, 5000)\<close>, \<open>(100, 10000)\<close>, \<open>[0, 10]\<close>, \<open>[0, 10]\<close>
  select physics; else the float at \<open>0x84\<close> in \<open>(1, 6)\<close> selects statistics; else statistics.
  A float the buffer is too short for counts as a non-match, so without a path hint a
  buffer of fewer than \<open>0x40\<close> bytes gives statistics. A buffer with the floats 600, 1200, 1
  and 1 at the four offsets and no path hint gives physics.
\<close>

theorem detect_profile_rules:
  "detect_profile sep file_path blob = spec_detect sep file_path blob
   \<and> (\<not> path_hint sep file_path \<and> length blob < 0x40 \<longrightarrow>
        detect_profile sep file_path blob = stats_profile)
   \<and> (\<not> path_hint sep file_path
        \<and> f32_at blob 0x30 = Some (FNum 600) \<and> f32_at blob 0x34 = Some (FNum 1200)
        \<and> f32_at blob 0x38 = Some (FNum 1) \<and> f32_at blob 0x3C = Some (FNum 1) \<longrightarrow>
        detect_profile sep file_path blob = physics_profile)"
proof (intro conjI impI)
  show "detect_profile sep file_path blob = spec_detect sep file_path blob"
    by (rule detect_profile_eq_spec)
next
  assume "\<not> path_hint sep file_path \<and> length blob < 0x40"
  then have "\<not> path_hint sep file_path" and "f32_at blob 0x3C = None"
    by (simp_all add: f32_at_short)
  then show "detect_profile sep file_path blob = stats_profile"
    by (simp add: detect_profile_eq_spec spec_detect_def in_closed_def)
next
  assume "\<not> path_hint sep file_path
        \<and> f32_at blob 0x30 = Some (FNum 600) \<and> f32_at blob 0x34 = Some (FNum 1200)
        \<and> f32_at blob 0x38 = Some (FNum 1) \<and> f32_at blob 0x3C = Some (FNum 1)"
  then show "detect_profile sep file_path blob = physics_profile"
    by (simp add: detect_profile_eq_spec spec_detect_def in_open_def in_closed_def)
qed

theorem detect_profile_rules_witness:
  "\<not> path_hint ''/'' ''cars/stats_lotus.mrdf''
   \<and> f32_at brake_glow_blob 0x30 = Some (FNum 600)
   \<and> f32_at brake_glow_blob 0x34 = Some (FNum 1200)
   \<and> f32_at brake_glow_blob 0x38 = Some (FNum 1)
   \<and> f32_at brake_glow_blob 0x3C = Some (FNum 1)
   \<and> detect_profile ''/'' ''cars/stats_lotus.mrdf'' brake_glow_blob = physics_profile
   \<and> length (take 0x3F brake_glow_blob) < 0x40
   \<and> detect_profile ''/'' ''cars/stats_lotus.mrdf'' (take 0x3F brake_glow_blob) = stats_profile"
proof -
  have h: "\<not> path_hint ''/'' ''cars/stats_lotus.mrdf''"
    by (simp add: path_hint_def py_lower_def lower_char_def)
  have f: "f32_at brake_glow_blob 0x30 = Some (FNum 600)"
    "f32_at brake_glow_blob 0x34 = Some (FNum 1200)"
    "f32_at brake_glow_blob 0x38 = Some (FNum 1)"
    "f32_at brake_glow_blob 0x3C = Some (FNum 1)"
    by (simp_all add: f32_at_def brake_glow_blob_def f32_value_def)
  have l: "length (take 0x3F brake_glow_blob) < 0x40"
    by (simp add: brake_glow_blob_def)
  from detect_profile_rules [of "''/''" "''cars/stats_lotus.mrdf''" brake_glow_blob] h f
  have p: "detect_profile ''/'' ''cars/stats_lotus.mrdf'' brake_glow_blob = physics_profile"
    by blast
  from detect_profile_rules [of "''/''" "''cars/stats_lotus.mrdf''" "take 0x3F brake_glow_blob"] h l
  have s: "detect_profile ''/'' ''cars/stats_lotus.mrdf'' (take 0x3F brake_glow_blob) = stats_profile"
    by blast
  from h f p l s show ?thesis by simp
qed

lemma apply_hex_overwrite_edits:
  "edits (fst (apply_hex_overwrite st hs hl txt)) = edits st"
  by (auto simp: apply_hex_overwrite_def split: option.splits sum.splits)

lemma apply_hex_overwrite_original:
  "original_blob (fst (apply_hex_overwrite st hs hl txt)) = original_blob st"
  by (auto simp: apply_hex_overwrite_def split: option.splits sum.splits)

text \<open>
  Claim C7. For a loaded buffer and a selected target range of length \<open>n\<close>, a byte sequence
  whose length differs from \<open>n\<close> makes \<^verbatim>\<open>apply_hex_overwrite\<close> fail with the length mismatch
  and leaves the state, the working buffer with it, as it was. When the length matches, the
  slice \<open>working[start:start+n]\<close> is replaced by the new bytes: for a range within the buffer
  the length is kept, the range holds the new bytes and every other byte is unchanged. The
  ledger of pending edits is the same after every call.
\<close>

theorem apply_hex_overwrite_spec:
  assumes "working_blob st = Some w" and "parse_hex_bytes txt = Inr new_bytes"
  shows "(int (length new_bytes) \<noteq> n \<longrightarrow>
            apply_hex_overwrite st (Some start) (Some n) txt = (st, Failed LengthMismatch))
       \<and> (int (length new_bytes) = n \<longrightarrow>
            apply_hex_overwrite st (Some start) (Some n) txt =
              (st\<lparr>working_blob := Some (py_slice_assign w start (start + n) new_bytes)\<rparr>, Done)
          \<and> (0 \<le> start \<and> start + n \<le> int (length w) \<longrightarrow>
               length (py_slice_assign w start (start + n) new_bytes) = length w
             \<and> py_slice (py_slice_assign w start (start + n) new_bytes) start (start + n) = new_bytes
             \<and> (\<forall>i < length w. int i < start \<or> start + n \<le> int i \<longrightarrow>
                   py_slice_assign w start (start + n) new_bytes ! i = w ! i)))
       \<and> edits (fst (apply_hex_overwrite st hs hl txt')) = edits st"
proof (intro conjI impI)
  assume "int (length new_bytes) \<noteq> n"
  then show "apply_hex_overwrite st (Some start) (Some n) txt = (st, Failed LengthMismatch)"
    using assms by (simp add: apply_hex_overwrite_def)
next
  assume "int (length new_bytes) = n"
  then show "apply_hex_overwrite st (Some start) (Some n) txt =
      (st\<lparr>working_blob := Some (py_slice_assign w start (start + n) new_bytes)\<rparr>, Done)"
    using assms by (simp add: apply_hex_overwrite_def)
next
  assume l: "int (length new_bytes) = n" and b: "0 \<le> start \<and> start + n \<le> int (length w)"
  then have n0: "0 \<le> n" by auto
  from b have b1: "0 \<le> start" and b2: "start + n \<le> int (length w)" by auto
  show "length (py_slice_assign w start (start + n) new_bytes) = length w"
    by (rule py_slice_assign_length[OF b1 n0 b2 l])
  show "py_slice (py_slice_assign w start (start + n) new_bytes) start (start + n) = new_bytes"
    by (rule py_slice_of_assign[OF b1 n0 b2 l])
  show "\<forall>i < length w. int i < start \<or> start + n \<le> int i \<longrightarrow>
          py_slice_assign w start (start + n) new_bytes ! i = w ! i"
    using py_slice_assign_outside[OF b1 n0 b2 l] by blast
next
  show "edits (fst (apply_hex_overwrite st hs hl txt')) = edits st"
    by (rule apply_hex_overwrite_edits)
qed

theorem apply_hex_overwrite_spec_witness:
  "working_blob edited_state = Some [0, 0, 5, 0, 0, 0]
   \<and> parse_hex_bytes ''DE AD BE EF'' = Inr [0xDE, 0xAD, 0xBE, 0xEF]
   \<and> int (length [0xDE, 0xAD, 0xBE, 0xEF :: byte]) \<noteq> 2
   \<and> apply_hex_overwrite edited_state (Some 2) (Some 2) ''DE AD BE EF''
       = (edited_state, Failed LengthMismatch)
   \<and> int (length [0xDE, 0xAD, 0xBE, 0xEF :: byte]) = 4
   \<and> snd (apply_hex_overwrite edited_state (Some 2) (Some 4) ''DE AD BE EF'') = Done
   \<and> working_blob (fst (apply_hex_overwrite edited_state (Some 2) (Some 4) ''DE AD BE EF''))
       = Some [0, 0, 0xDE, 0xAD, 0xBE, 0xEF]
   \<and> edits (fst (apply_hex_overwrite edited_state (Some 2) (Some 4) ''DE AD BE EF'')) 2
       = Some (VInt 5)"
proof -
  have w: "working_blob edited_state = Some [0, 0, 5, 0, 0, 0]"
    by (simp add: edited_state_def)
  have p: "parse_hex_bytes ''DE AD BE EF'' = Inr [0xDE, 0xAD, 0xBE, 0xEF]"
    by code_simp
  have e: "edits edited_state 2 = Some (VInt 5)"
    by (simp add: edited_state_def)
  from apply_hex_overwrite_spec [OF w p, of 2 2]
  have a: "apply_hex_overwrite edited_state (Some 2) (Some 2) ''DE AD BE EF''
       = (edited_state, Failed LengthMismatch)"
    by simp
  from apply_hex_overwrite_spec [OF w p, of 4 2 "Some 2" "Some 4" "''DE AD BE EF''"]
  have b: "apply_hex_overwrite edited_state (Some 2) (Some 4) ''DE AD BE EF'' =
      (edited_state\<lparr>working_blob := Some (py_slice_assign [0, 0, 5, 0, 0, 0] 2 (2 + 4)
         [0xDE, 0xAD, 0xBE, 0xEF])\<rparr>, Done)"
    and c: "edits (fst (apply_hex_overwrite edited_state (Some 2) (Some 4) ''DE AD BE EF''))
      = edits edited_state"
    by simp_all
  have s: "py_slice_assign [0, 0, 5, 0, 0, 0 :: byte] 2 (2 + 4) [0xDE, 0xAD, 0xBE, 0xEF]
      = [0, 0, 0xDE, 0xAD, 0xBE, 0xEF]"
    by (simp add: py_slice_assign_def norm_index_def)
  from w p a b c e s show ?thesis by simp
qed

lemma new_value_entry_float:
  assumes "fd_name d \<noteq> ''TyreAvailability''"
    and "fd_enum d = None \<or> py_strip (enum_choice_var form) = []"
    and "fd_scalar d = SFloat"
  shows "new_value conv d form = map_option VFloat (float_of_str conv (py_strip (editor_var form)))"
  using assms by (auto simp: new_value_def Let_def)

lemma new_value_entry_int:
  assumes "fd_name d \<noteq> ''TyreAvailability''"
    and "fd_enum d = None \<or> py_strip (enum_choice_var form) = []"
    and "fd_scalar d \<noteq> SFloat"
  shows "new_value conv d form =
           map_option VInt
             (if startswith (py_lower (py_strip (editor_var form))) ''0x''
              then py_int 16 (py_strip (editor_var form))
              else py_int 10 (py_strip (editor_var form)))"
  using assms by (auto simp: new_value_def Let_def)

text \<open>
  Claim C8. For a loaded buffer and a selected field: when the new value cannot be read
  from the form (for a field edited through the value entry, the text is not a float
  literal for a float field, or not an integer literal for another field),
  \<^verbatim>\<open>apply_edit\<close> fails with the parse error and leaves the state, buffer and ledger, as it
  was. When the value is read, the outcome follows the encode: if it raises, the handler
  fails with that error and the state is as it was; if it returns, the working buffer is
  the encoded buffer and the ledger has the entry from the offset to the new value.
\<close>

theorem apply_edit_spec:
  assumes "working_blob st = Some w" and "i_definition inst = d"
  shows "(new_value conv d form = None \<longrightarrow>
            apply_edit conv st (Some inst) form = (st, Failed ParseError))
       \<and> (fd_name d \<noteq> ''TyreAvailability''
            \<and> (fd_enum d = None \<or> py_strip (enum_choice_var form) = [])
            \<and> fd_scalar d = SFloat
            \<and> float_of_str conv (py_strip (editor_var form)) = None \<longrightarrow>
            apply_edit conv st (Some inst) form = (st, Failed ParseError))
       \<and> (fd_name d \<noteq> ''TyreAvailability''
            \<and> (fd_enum d = None \<or> py_strip (enum_choice_var form) = [])
            \<and> fd_scalar d \<noteq> SFloat
            \<and> (if startswith (py_lower (py_strip (editor_var form))) ''0x''
                then py_int 16 (py_strip (editor_var form))
                else py_int 10 (py_strip (editor_var form))) = None \<longrightarrow>
            apply_edit conv st (Some inst) form = (st, Failed ParseError))
       \<and> (\<forall>v e. new_value conv d form = Some v
            \<and> snd (write_scalar conv w (fd_offset d) (fd_scalar d) v) = Inl e \<longrightarrow>
            apply_edit conv st (Some inst) form = (st, Failed e))
       \<and> (\<forall>v packed. new_value conv d form = Some v
            \<and> snd (write_scalar conv w (fd_offset d) (fd_scalar d) v) = Inr packed \<longrightarrow>
            apply_edit conv st (Some inst) form =
              (st\<lparr>working_blob := Some (fst (write_scalar conv w (fd_offset d) (fd_scalar d) v)),
                  edits := (edits st)(fd_offset d \<mapsto> v)\<rparr>, Done))"
proof -
  have none: "apply_edit conv st (Some inst) form = (st, Failed ParseError)"
    if "new_value conv d form = None"
    using that assms by (simp add: apply_edit_def)
  have fl: "new_value conv d form = None"
    if "fd_name d \<noteq> ''TyreAvailability''
        \<and> (fd_enum d = None \<or> py_strip (enum_choice_var form) = [])
        \<and> fd_scalar d = SFloat
        \<and> float_of_str conv (py_strip (editor_var form)) = None"
    using that new_value_entry_float[of d form conv] by simp
  have it: "new_value conv d form = None"
    if "fd_name d \<noteq> ''TyreAvailability''
        \<and> (fd_enum d = None \<or> py_strip (enum_choice_var form) = [])
        \<and> fd_scalar d \<noteq> SFloat
        \<and> (if startswith (py_lower (py_strip (editor_var form))) ''0x''
            then py_int 16 (py_strip (editor_var form))
            else py_int 10 (py_strip (editor_var form))) = None"
    using that new_value_entry_int[of d form conv] by simp
  have err: "apply_edit conv st (Some inst) form = (st, Failed e)"
    if "new_value conv d form = Some v"
      and "snd (write_scalar conv w (fd_offset d) (fd_scalar d) v) = Inl e" for v e
    using that assms by (auto simp: apply_edit_def split: prod.splits sum.splits)
  have ok: "apply_edit conv st (Some inst) form =
              (st\<lparr>working_blob := Some (fst (write_scalar conv w (fd_offset d) (fd_scalar d) v)),
                  edits := (edits st)(fd_offset d \<mapsto> v)\<rparr>, Done)"
    if "new_value conv d form = Some v"
      and "snd (write_scalar conv w (fd_offset d) (fd_scalar d) v) = Inr packed" for v packed
    using that assms by (auto simp: apply_edit_def split: prod.splits sum.splits)
  show ?thesis
  proof (intro conjI impI allI)
    assume "new_value conv d form = None"
    then show "apply_edit conv st (Some inst) form = (st, Failed ParseError)" by (rule none)
  next
    assume "fd_name d \<noteq> ''TyreAvailability''
        \<and> (fd_enum d = None \<or> py_strip (enum_choice_var form) = [])
        \<and> fd_scalar d = SFloat
        \<and> float_of_str conv (py_strip (editor_var form)) = None"
    then show "apply_edit conv st (Some inst) form = (st, Failed ParseError)"
      by (intro none fl)
  next
    assume "fd_name d \<noteq> ''TyreAvailability''
        \<and> (fd_enum d = None \<or> py_strip (enum_choice_var form) = [])
        \<and> fd_scalar d \<noteq> SFloat
        \<and> (if startswith (py_lower (py_strip (editor_var form))) ''0x''
            then py_int 16 (py_strip (editor_var form))
            else py_int 10 (py_strip (editor_var form))) = None"
    then show "apply_edit conv st (Some inst) form = (st, Failed ParseError)"
      by (intro none it)
  next
    fix v e
    assume "new_value conv d form = Some v
        \<and> snd (write_scalar conv w (fd_offset d) (fd_scalar d) v) = Inl e"
    then show "apply_edit conv st (Some inst) form = (st, Failed e)"
      using err by blast
  next
    fix v packed
    assume "new_value conv d form = Some v
        \<and> snd (write_scalar conv w (fd_offset d) (fd_scalar d) v) = Inr packed"
    then show "apply_edit conv st (Some inst) form =
              (st\<lparr>working_blob := Some (fst (write_scalar conv w (fd_offset d) (fd_scalar d) v)),
                  edits := (edits st)(fd_offset d \<mapsto> v)\<rparr>, Done)"
      using ok by blast
  qed
qed

theorem apply_edit_spec_witness:
  "working_blob opened_state = Some [0, 0, 0, 0, 0, 0]
   \<and> i_definition sample_inst = sample_def
   \<and> i_definition sample_float_inst = sample_float_def
   \<and> new_value sample_conv sample_def (entry_form ''fast'') = None
   \<and> apply_edit sample_conv opened_state (Some sample_inst) (entry_form ''fast'')
       = (opened_state, Failed ParseError)
   \<and> fd_scalar sample_float_def = SFloat
   \<and> float_of_str sample_conv (py_strip (editor_var (entry_form ''fast''))) = None
   \<and> apply_edit sample_conv opened_state (Some sample_float_inst) (entry_form ''fast'')
       = (opened_state, Failed ParseError)
   \<and> new_value sample_conv sample_def (entry_form ''0x1F'') = Some (VInt 31)
   \<and> write_scalar sample_conv [0, 0, 0, 0, 0, 0] 2 SUint32 (VInt 31)
       = ([0, 0, 31, 0, 0, 0], Inr [31, 0, 0, 0])
   \<and> snd (apply_edit sample_conv opened_state (Some sample_inst) (entry_form ''0x1F'')) = Done
   \<and> working_blob (fst (apply_edit sample_conv opened_state (Some sample_inst) (entry_form ''0x1F'')))
       = Some [0, 0, 31, 0, 0, 0]
   \<and> edits (fst (apply_edit sample_conv opened_state (Some sample_inst) (entry_form ''0x1F''))) 2
       = Some (VInt 31)"
proof -
  have w: "working_blob opened_state = Some [0, 0, 0, 0, 0, 0]"
    by (simp add: opened_state_def)
  have d: "i_definition sample_inst = sample_def"
    and fd: "i_definition sample_float_inst = sample_float_def"
    by (simp_all add: sample_inst_def sample_float_inst_def)
  have n1: "new_value sample_conv sample_def (entry_form ''fast'') = None"
    by code_simp
  have n2: "new_value sample_conv sample_def (entry_form ''0x1F'') = Some (VInt 31)"
    by code_simp
  have f: "fd_name sample_float_def \<noteq> ''TyreAvailability''"
    "fd_enum sample_float_def = None \<or> py_strip (enum_choice_var (entry_form ''fast'')) = []"
    "fd_scalar sample_float_def = SFloat"
    "float_of_str sample_conv (py_strip (editor_var (entry_form ''fast''))) = None"
    by (simp_all add: sample_float_def_def sample_conv_def entry_form_def py_strip_def is_space_def)
  have ws: "write_scalar sample_conv [0, 0, 0, 0, 0, 0] 2 SUint32 (VInt 31)
      = ([0, 0, 31, 0, 0, 0], Inr [31, 0, 0, 0])"
    by (simp add: write_scalar_def and_ffffffff le_bytes_4 py_slice_assign_def norm_index_def)
  have o: "fd_offset sample_def = 2" "fd_scalar sample_def = SUint32"
    by (simp_all add: sample_def_def)
  from apply_edit_spec [OF w d, of sample_conv "entry_form ''fast''"] n1
  have a1: "apply_edit sample_conv opened_state (Some sample_inst) (entry_form ''fast'')
      = (opened_state, Failed ParseError)"
    by blast
  from apply_edit_spec [OF w fd, of sample_conv "entry_form ''fast''"] f
  have a2: "apply_edit sample_conv opened_state (Some sample_float_inst) (entry_form ''fast'')
      = (opened_state, Failed ParseError)"
    by blast
  from apply_edit_spec [OF w d, of sample_conv "entry_form ''0x1F''"]
  have "\<forall>v packed. new_value sample_conv sample_def (entry_form ''0x1F'') = Some v
            \<and> snd (write_scalar sample_conv [0, 0, 0, 0, 0, 0] (fd_offset sample_def)
                     (fd_scalar sample_def) v) = Inr packed \<longrightarrow>
            apply_edit sample_conv opened_state (Some sample_inst) (entry_form ''0x1F'') =
              (opened_state\<lparr>working_blob := Some (fst (write_scalar sample_conv [0, 0, 0, 0, 0, 0]
                    (fd_offset sample_def) (fd_scalar sample_def) v)),
                  edits := (edits opened_state)(fd_offset sample_def \<mapsto> v)\<rparr>, Done)"
    by (elim conjE)
  then have a3: "apply_edit sample_conv opened_state (Some sample_inst) (entry_form ''0x1F'') =
      (opened_state\<lparr>working_blob := Some [0, 0, 31, 0, 0, 0],
          edits := (edits opened_state)(2 \<mapsto> VInt 31)\<rparr>, Done)"
    using n2 ws o by simp
  from w d fd n1 n2 f ws a1 a2 a3 show ?thesis by simp
qed

lemma read_scalar_fits:
  "fits blob d \<Longrightarrow> \<exists>v raw. read_scalar blob (fd_offset d) (fd_scalar d) = Inr (v, raw)"
  using read_scalar_fails_iff[of blob "fd_offset d" "fd_scalar d"]
  by (cases "read_scalar blob (fd_offset d) (fd_scalar d)") (auto simp: fits_def)

lemma read_scalar_not_fits:
  "\<not> fits blob d \<Longrightarrow> \<exists>e. read_scalar blob (fd_offset d) (fd_scalar d) = Inl e"
  using read_scalar_fails_iff[of blob "fd_offset d" "fd_scalar d"]
  by (auto simp: fits_def)

lemma collect_defs:
  "map i_definition (collect blob defs insts) = map i_definition insts @ filter (fits blob) defs"
proof (induction defs arbitrary: insts)
  case Nil
  then show ?case by simp
next
  case (Cons d ds)
  show ?case
  proof (cases "fits blob d")
    case True
    then obtain v raw where "read_scalar blob (fd_offset d) (fd_scalar d) = Inr (v, raw)"
      using read_scalar_fits by blast
    then show ?thesis using True Cons.IH by simp
  next
    case False
    then obtain e where "read_scalar blob (fd_offset d) (fd_scalar d) = Inl e"
      using read_scalar_not_fits by blast
    then show ?thesis using False Cons.IH by simp
  qed
qed

lemma collect_well_read:
  "\<forall>i \<in> set insts. well_read blob i \<Longrightarrow> \<forall>i \<in> set (collect blob defs insts). well_read blob i"
proof (induction defs arbitrary: insts)
  case Nil
  then show ?case by simp
next
  case (Cons d ds)
  show ?case
  proof (cases "read_scalar blob (fd_offset d) (fd_scalar d)")
    case (Inl e)
    then show ?thesis using Cons by simp
  next
    case (Inr p)
    obtain v raw where p: "p = (v, raw)" by (cases p)
    let ?i = "\<lparr>i_definition = d, i_offset = fd_offset d, i_raw = raw, i_value = v\<rparr>"
    have "well_read blob ?i" using Inr p by (simp add: well_read_def)
    with Cons.prems have "\<forall>i \<in> set (insts @ [?i]). well_read blob i" by simp
    from Cons.IH[OF this] show ?thesis using Inr p by simp
  qed
qed

lemma sort_key_of_well_read:
  "well_read blob i \<Longrightarrow> sort_key_of i = (fd_section (i_definition i), fd_offset (i_definition i))"
  by (simp add: well_read_def sort_key_of_def)

lemma filter_map_defs:
  assumes "\<forall>i \<in> set xs. well_read blob i"
  shows "map i_definition (filter (\<lambda>i. sort_key_of i = k) xs)
       = filter (\<lambda>d. (fd_section d, fd_offset d) = k) (map i_definition xs)"
  using assms by (induction xs) (auto simp: sort_key_of_well_read)

lemma key_order:
  "((s1 :: string, o1 :: int) \<le> (s2, o2)) = (s1 < s2 \<or> s1 = s2 \<and> o1 \<le> o2)"
  by (auto simp: less_eq_prod_def)

lemma string_order:
  "((xs :: string) < ys) = ((xs, ys) \<in> lexord {(c, d). (of_char c :: nat) < of_char d})"
  by (simp add: list_less_def less_char_def)

text \<open>
  Claim C5 (lemmas \<open>key_order\<close> and \<open>string_order\<close> spell out the order of the keys).
  \<^verbatim>\<open>parse_mrdf\<close> is a total function of the buffer and the table, so it never
  raises and gives the same list for the same input. The definitions of the instances it
  returns are, with multiplicity, the definitions of the table that fit the buffer, which
  are those whose decode succeeds; every instance holds the offset of its definition and
  the value and raw bytes that the decode returns. The list is sorted ascending by
  \<open>(section, offset)\<close>, sections compared as strings and offsets as integers, and instances
  with the same key keep the order of the table.
\<close>

theorem parse_mrdf_spec:
  "sorted (map sort_key_of (parse_mrdf blob defs))
   \<and> mset (map i_definition (parse_mrdf blob defs)) = mset (filter (fits blob) defs)
   \<and> (\<forall>d. fits blob d \<longleftrightarrow> (\<exists>v raw. read_scalar blob (fd_offset d) (fd_scalar d) = Inr (v, raw)))
   \<and> (\<forall>i \<in> set (parse_mrdf blob defs).
         i_offset i = fd_offset (i_definition i)
       \<and> sort_key_of i = (fd_section (i_definition i), fd_offset (i_definition i))
       \<and> read_scalar blob (fd_offset (i_definition i)) (fd_scalar (i_definition i))
           = Inr (i_value i, i_raw i))
   \<and> (\<forall>k. map i_definition (filter (\<lambda>i. sort_key_of i = k) (parse_mrdf blob defs))
          = filter (\<lambda>d. (fd_section d, fd_offset d) = k) (filter (fits blob) defs))"
proof (intro conjI allI)
  show "sorted (map sort_key_of (parse_mrdf blob defs))"
    by (simp add: parse_mrdf_def)
next
  have "mset (map i_definition (parse_mrdf blob defs))
      = mset (map i_definition (collect blob defs []))"
    by (simp add: parse_mrdf_def)
  then show "mset (map i_definition (parse_mrdf blob defs)) = mset (filter (fits blob) defs)"
    by (simp add: collect_defs)
next
  fix d
  show "fits blob d \<longleftrightarrow> (\<exists>v raw. read_scalar blob (fd_offset d) (fd_scalar d) = Inr (v, raw))"
    by (metis read_scalar_fits read_scalar_not_fits sum.distinct(1))
next
  have "\<forall>i \<in> set (collect blob defs []). well_read blob i"
    by (rule collect_well_read) simp
  then have "\<forall>i \<in> set (parse_mrdf blob defs). well_read blob i"
    by (simp add: parse_mrdf_def)
  then show "\<forall>i \<in> set (parse_mrdf blob defs).
         i_offset i = fd_offset (i_definition i)
       \<and> sort_key_of i = (fd_section (i_definition i), fd_offset (i_definition i))
       \<and> read_scalar blob (fd_offset (i_definition i)) (fd_scalar (i_definition i))
           = Inr (i_value i, i_raw i)"
    using sort_key_of_well_read by (auto simp: well_read_def)
next
  fix k
  have wr: "\<forall>i \<in> set (collect blob defs []). well_read blob i"
    by (rule collect_well_read) simp
  have "filter (\<lambda>i. sort_key_of i = k) (parse_mrdf blob defs)
      = filter (\<lambda>i. sort_key_of i = k) (collect blob defs [])"
    unfolding parse_mrdf_def by (rule sort_key_stable)
  then have "map i_definition (filter (\<lambda>i. sort_key_of i = k) (parse_mrdf blob defs))
      = filter (\<lambda>d. (fd_section d, fd_offset d) = k) (map i_definition (collect blob defs []))"
    using filter_map_defs[OF wr] by simp
  then show "map i_definition (filter (\<lambda>i. sort_key_of i = k) (parse_mrdf blob defs))
          = filter (\<lambda>d. (fd_section d, fd_offset d) = k) (filter (fits blob) defs)"
    by (simp add: collect_defs)
qed

theorem parse_mrdf_spec_witness:
  "parse_mrdf sample_blob sample_defs =
     [\<lparr>i_definition = MrdfFieldDef ''Wheelbase_m'' ''CHASSIS'' 2 SFloat [] None,
        i_offset = 2, i_raw = [0x00, 0x00, 0x80, 0x3F], i_value = VFloat (FNum 1)\<rparr>,
      \<lparr>i_definition = MrdfFieldDef ''Flags'' ''DRIVETRAIN'' 1 SUint8 [] None,
        i_offset = 1, i_raw = [9], i_value = VInt 9\<rparr>,
      \<lparr>i_definition = MrdfFieldDef ''NumGears'' ''DRIVETRAIN'' 2 SUint32 [] None,
        i_offset = 2, i_raw = [0x00, 0x00, 0x80, 0x3F], i_value = VInt 1065353216\<rparr>]
   \<and> sorted (map sort_key_of (parse_mrdf sample_blob sample_defs))
   \<and> map sort_key_of (parse_mrdf sample_blob sample_defs)
       = [(''CHASSIS'', 2), (''DRIVETRAIN'', 1), (''DRIVETRAIN'', 2)]
   \<and> filter (fits sample_blob) sample_defs
       = [MrdfFieldDef ''NumGears'' ''DRIVETRAIN'' 2 SUint32 [] None,
          MrdfFieldDef ''Flags'' ''DRIVETRAIN'' 1 SUint8 [] None,
          MrdfFieldDef ''Wheelbase_m'' ''CHASSIS'' 2 SFloat [] None]
   \<and> mset (map i_definition (parse_mrdf sample_blob sample_defs))
       = mset (filter (fits sample_blob) sample_defs)
   \<and> \<lparr>i_definition = MrdfFieldDef ''Flags'' ''DRIVETRAIN'' 1 SUint8 [] None,
        i_offset = 1, i_raw = [9], i_value = VInt 9\<rparr> \<in> set (parse_mrdf sample_blob sample_defs)
   \<and> read_scalar sample_blob 1 SUint8 = Inr (VInt 9, [9])"
proof -
  let ?flags = "\<lparr>i_definition = MrdfFieldDef ''Flags'' ''DRIVETRAIN'' 1 SUint8 [] None,
        i_offset = 1, i_raw = [9], i_value = VInt 9\<rparr>"
  have p: "parse_mrdf sample_blob sample_defs =
     [\<lparr>i_definition = MrdfFieldDef ''Wheelbase_m'' ''CHASSIS'' 2 SFloat [] None,
        i_offset = 2, i_raw = [0x00, 0x00, 0x80, 0x3F], i_value = VFloat (FNum 1)\<rparr>,
      ?flags,
      \<lparr>i_definition = MrdfFieldDef ''NumGears'' ''DRIVETRAIN'' 2 SUint32 [] None,
        i_offset = 2, i_raw = [0x00, 0x00, 0x80, 0x3F], i_value = VInt 1065353216\<rparr>]"
    by code_simp
  have k: "map sort_key_of (parse_mrdf sample_blob sample_defs)
       = [(''CHASSIS'', 2), (''DRIVETRAIN'', 1), (''DRIVETRAIN'', 2)]"
    unfolding p by (simp add: sort_key_of_def)
  have f: "filter (fits sample_blob) sample_defs
       = [MrdfFieldDef ''NumGears'' ''DRIVETRAIN'' 2 SUint32 [] None,
          MrdfFieldDef ''Flags'' ''DRIVETRAIN'' 1 SUint8 [] None,
          MrdfFieldDef ''Wheelbase_m'' ''CHASSIS'' 2 SFloat [] None]"
    by (simp add: sample_defs_def sample_blob_def fits_def width_def)
  have m: "?flags \<in> set (parse_mrdf sample_blob sample_defs)"
    unfolding p by simp
  note t = parse_mrdf_spec [of sample_blob sample_defs]
  from t have s: "sorted (map sort_key_of (parse_mrdf sample_blob sample_defs))"
    by (rule conjunct1)
  from t have ms: "mset (map i_definition (parse_mrdf sample_blob sample_defs))
       = mset (filter (fits sample_blob) sample_defs)"
    by blast
  from t m have "read_scalar sample_blob (fd_offset (i_definition ?flags))
      (fd_scalar (i_definition ?flags)) = Inr (i_value ?flags, i_raw ?flags)"
    by blast
  then have r: "read_scalar sample_blob 1 SUint8 = Inr (VInt 9, [9])" by simp
  from p s k f ms m r show ?thesis by (intro conjI)
qed

lemma hex_digit_range:
  "is_hex_digit c \<longleftrightarrow>
     (48 \<le> (of_char c :: nat) \<and> (of_char c :: nat) \<le> 57)
   \<or> (97 \<le> (of_char c :: nat) \<and> (of_char c :: nat) \<le> 102)
   \<or> (65 \<le> (of_char c :: nat) \<and> (of_char c :: nat) \<le> 70)"
  by (auto simp: is_hex_digit_def digit_value_def Let_def)

lemma hex_digit_value:
  "is_hex_digit c \<Longrightarrow> digit_value c = Some (hex_val c) \<and> hex_val c < 16"
  by (auto simp: is_hex_digit_def hex_val_def split: option.splits)

lemma hex_digit_not_space: "is_hex_digit c \<Longrightarrow> \<not> is_space c"
  by (auto simp: hex_digit_range is_space_def Let_def)

lemma hex_digit_not_int_space: "is_hex_digit c \<Longrightarrow> \<not> is_int_space c"
  by (auto simp: hex_digit_range is_int_space_def Let_def)

lemma hex_digit_not_special:
  assumes "is_hex_digit c"
  shows "c \<noteq> CHR ''+''" "c \<noteq> CHR ''-''" "c \<noteq> CHR ''_''" "c \<noteq> CHR ''x''" "c \<noteq> CHR ''X''"
  using assms by (auto simp: hex_digit_range)

lemma py_int_two_digits:
  assumes "is_hex_digit a" and "is_hex_digit b"
  shows "py_int 16 [a, b] = Some (int (16 * hex_val a + hex_val b))"
proof -
  have s: "int_strip [a, b] = [a, b]"
    using assms by (simp add: int_strip_def hex_digit_not_int_space)
  show ?thesis
    using hex_digit_not_special[OF assms(1)] hex_digit_not_special[OF assms(2)]
      hex_digit_value[OF assms(1)] hex_digit_value[OF assms(2)]
    by (simp add: py_int_def s Let_def)
qed

lemma split_from_spaces:
  "list_all is_space ws \<Longrightarrow> split_from cur ws = (if cur = [] then [] else [cur])"
  by (induction ws arbitrary: cur) auto

lemma split_from_leading:
  "list_all is_space ws \<Longrightarrow> split_from [] (ws @ xs) = split_from [] xs"
  by (induction ws) auto

lemma split_from_trailing:
  "list_all is_space ws \<Longrightarrow> split_from cur (xs @ ws) = split_from cur xs"
  by (induction xs arbitrary: cur) (auto simp: split_from_spaces)

lemma strip_decompose:
  "\<exists>lead trail. list_all is_space lead \<and> list_all is_space trail \<and> s = lead @ py_strip s @ trail"
proof -
  let ?t = "dropWhile is_space s"
  have 1: "s = takeWhile is_space s @ ?t" by simp
  have "rev ?t = takeWhile is_space (rev ?t) @ dropWhile is_space (rev ?t)" by simp
  then have "?t = rev (dropWhile is_space (rev ?t)) @ rev (takeWhile is_space (rev ?t))"
    by (metis rev_append rev_rev_ident)
  then have 2: "?t = py_strip s @ rev (takeWhile is_space (rev ?t))"
    by (simp add: py_strip_def)
  have a: "list_all is_space (takeWhile is_space s)"
    by (simp add: list_all_iff) (meson set_takeWhileD)
  have b: "list_all is_space (rev (takeWhile is_space (rev ?t)))"
    by (simp add: list_all_iff) (meson set_takeWhileD)
  from 1 2 have "s = takeWhile is_space s @ py_strip s @ rev (takeWhile is_space (rev ?t))"
    by metis
  with a b show ?thesis by blast
qed

lemma replace_spaces:
  "list_all is_space ws \<Longrightarrow> list_all is_space (py_replace CHR '','' CHR '' '' ws)"
  by (induction ws) (auto simp: py_replace_def is_space_def)

lemma tokens_strip: "tokens (py_strip s) = tokens s"
proof -
  obtain lead trail where l: "list_all is_space lead" and t: "list_all is_space trail"
    and s: "s = lead @ py_strip s @ trail"
    using strip_decompose by blast
  let ?r = "py_replace CHR '','' CHR '' ''"
  have "tokens s = split_from [] (?r lead @ ?r (py_strip s) @ ?r trail)"
    by (subst s) (simp add: tokens_def py_split_def py_replace_def)
  also have "\<dots> = split_from [] (?r (py_strip s) @ ?r trail)"
    by (rule split_from_leading[OF replace_spaces[OF l]])
  also have "\<dots> = split_from [] (?r (py_strip s))"
    by (rule split_from_trailing[OF replace_spaces[OF t]])
  finally show ?thesis by (simp add: tokens_def py_split_def)
qed

lemma tokens_empty: "py_strip s = [] \<Longrightarrow> tokens s = []"
  using tokens_strip[of s] by (simp add: tokens_def py_split_def py_replace_def)

lemma parse_hex_bytes_tokens:
  "parse_hex_bytes s = (case bytes_of_parts (tokens s) of None \<Rightarrow> Inl ParseError | Some bs \<Rightarrow> Inr bs)"
proof (cases "py_strip s = []")
  case True
  then show ?thesis by (simp add: parse_hex_bytes_def tokens_empty)
next
  case False
  then show ?thesis
    using tokens_strip[of s] by (simp add: parse_hex_bytes_def tokens_def Let_def)
qed

lemma bytes_of_parts_Some_iff:
  "(\<exists>bs. bytes_of_parts ps = Some bs) \<longleftrightarrow> list_all byte_token ps"
  by (induction ps) (auto simp: byte_token_def split: option.splits)

lemma bytes_of_parts_length: "bytes_of_parts ps = Some bs \<Longrightarrow> length bs = length ps"
  by (induction ps arbitrary: bs) (auto split: option.splits if_splits)

lemma two_hex_digits_elim:
  assumes "two_hex_digits p"
  obtains a b where "p = [a, b]" "is_hex_digit a" "is_hex_digit b"
proof -
  from assms have "length p = 2" and h: "list_all is_hex_digit p"
    by (simp_all add: two_hex_digits_def)
  then obtain a b where "p = [a, b]"
    by (cases p; cases "tl p") auto
  with h that show ?thesis by simp
qed

lemma hex_val_bound: "is_hex_digit a \<Longrightarrow> is_hex_digit b \<Longrightarrow> 16 * hex_val a + hex_val b < 256"
  using hex_digit_value[of a] hex_digit_value[of b] by simp

lemma bytes_of_parts_two_digits:
  "list_all two_hex_digits ps \<Longrightarrow> bytes_of_parts ps = Some (map two_digit_byte ps)"
proof (induction ps)
  case Nil
  then show ?case by simp
next
  case (Cons p ps)
  then have "two_hex_digits p" by simp
  then obtain a b where p: "p = [a, b]" and h: "is_hex_digit a" "is_hex_digit b"
    by (rule two_hex_digits_elim)
  show ?case
    using Cons py_int_two_digits[OF h] hex_val_bound[OF h] by (simp add: p)
qed

lemma spec_hex_literal_tokens: "spec_hex_literal s = list_all two_hex_digits (tokens s)"
  by (simp add: spec_hex_literal_def tokens_def)

lemma apply_hex_overwrite_Done:
  "snd (apply_hex_overwrite st hs hl s) = Done \<Longrightarrow>
     \<exists>bs. parse_hex_bytes s = Inr bs \<and> hl = Some (int (length bs))"
  by (auto simp: apply_hex_overwrite_def split: option.splits sum.splits if_splits)

lemma apply_hex_overwrite_not_Done:
  "snd (apply_hex_overwrite st hs hl s) \<noteq> Done \<Longrightarrow> fst (apply_hex_overwrite st hs hl s) = st"
  by (auto simp: apply_hex_overwrite_def split: option.splits sum.splits if_splits)

text \<open>
  Claim C9. The parser does not accept two-digit tokens only: a token is read by
  \<^verbatim>\<open>int(p, 16)\<close>, which takes one digit as well, and a prefix \<^verbatim>\<open>0x\<close>. The literal \<^verbatim>\<open>F\<close> is
  not a string of two-digit tokens, and it is accepted as the byte \<open>0x0F\<close>.
\<close>

theorem parse_hex_bytes_one_digit_counterexample:
  "parse_hex_bytes ''F'' = Inr [0x0F] \<and> \<not> spec_hex_literal ''F''
   \<and> parse_hex_bytes ''0xFF'' = Inr [0xFF] \<and> \<not> spec_hex_literal ''0xFF''"
  by code_simp

text \<open>
  Claim C9 as amended. The parser accepts a string exactly when each of its tokens, the
  runs between whitespace and commas, is read by \<^verbatim>\<open>int(p, 16)\<close> as a number from 0 to 255,
  and fails with the parse error otherwise; the bytes are as many as the tokens. Every
  string of two-digit hexadecimal tokens is accepted, each token giving its byte. An
  overwrite is applied only when the literal parses and the number of its bytes equals the
  length of the target range; in every other case the state is unchanged.
\<close>

theorem parse_hex_bytes_accepts:
  "((\<exists>bs. parse_hex_bytes s = Inr bs) \<longleftrightarrow> list_all byte_token (tokens s))
   \<and> (parse_hex_bytes s = Inl ParseError \<longleftrightarrow> \<not> list_all byte_token (tokens s))
   \<and> (\<forall>bs. parse_hex_bytes s = Inr bs \<longrightarrow> length bs = length (tokens s))
   \<and> (spec_hex_literal s \<longrightarrow> parse_hex_bytes s = Inr (map two_digit_byte (tokens s)))
   \<and> (snd (apply_hex_overwrite st hs hl s) = Done \<longrightarrow>
        (\<exists>bs. parse_hex_bytes s = Inr bs \<and> hl = Some (int (length bs))))
   \<and> (snd (apply_hex_overwrite st hs hl s) \<noteq> Done \<longrightarrow>
        fst (apply_hex_overwrite st hs hl s) = st)"
proof (intro conjI allI impI)
  show "(\<exists>bs. parse_hex_bytes s = Inr bs) \<longleftrightarrow> list_all byte_token (tokens s)"
    using bytes_of_parts_Some_iff[of "tokens s"]
    by (auto simp: parse_hex_bytes_tokens split: option.splits)
next
  show "parse_hex_bytes s = Inl ParseError \<longleftrightarrow> \<not> list_all byte_token (tokens s)"
    using bytes_of_parts_Some_iff[of "tokens s"]
    by (auto simp: parse_hex_bytes_tokens split: option.splits)
next
  fix bs assume "parse_hex_bytes s = Inr bs"
  then have "bytes_of_parts (tokens s) = Some bs"
    by (simp add: parse_hex_bytes_tokens split: option.splits)
  then show "length bs = length (tokens s)" by (rule bytes_of_parts_length)
next
  assume "spec_hex_literal s"
  then have "bytes_of_parts (tokens s) = Some (map two_digit_byte (tokens s))"
    by (simp add: spec_hex_literal_tokens bytes_of_parts_two_digits)
  then show "parse_hex_bytes s = Inr (map two_digit_byte (tokens s))"
    by (simp add: parse_hex_bytes_tokens)
next
  assume "snd (apply_hex_overwrite st hs hl s) = Done"
  then show "\<exists>bs. parse_hex_bytes s = Inr bs \<and> hl = Some (int (length bs))"
    by (rule apply_hex_overwrite_Done)
next
  assume "snd (apply_hex_overwrite st hs hl s) \<noteq> Done"
  then show "fst (apply_hex_overwrite st hs hl s) = st"
    by (rule apply_hex_overwrite_not_Done)
qed

theorem parse_hex_bytes_accepts_witness:
  "tokens ''DE AD,BE, EF'' = [''DE'', ''AD'', ''BE'', ''EF'']
   \<and> spec_hex_literal ''DE AD,BE, EF''
   \<and> parse_hex_bytes ''DE AD,BE, EF'' = Inr [0xDE, 0xAD, 0xBE, 0xEF]
   \<and> list_all byte_token (tokens ''DE AD,BE, EF'')
   \<and> length [0xDE, 0xAD, 0xBE, 0xEF :: byte] = length (tokens ''DE AD,BE, EF'')
   \<and> snd (apply_hex_overwrite opened_state (Some 1) (Some 4) ''DE AD,BE, EF'') = Done
   \<and> snd (apply_hex_overwrite opened_state (Some 1) (Some 3) ''DE AD,BE, EF'') \<noteq> Done
   \<and> fst (apply_hex_overwrite opened_state (Some 1) (Some 3) ''DE AD,BE, EF'') = opened_state
   \<and> \<not> list_all byte_token (tokens ''DE AD 1FF'')
   \<and> parse_hex_bytes ''DE AD 1FF'' = Inl ParseError"
proof -
  have t: "tokens ''DE AD,BE, EF'' = [''DE'', ''AD'', ''BE'', ''EF'']"
    by code_simp
  have sp: "spec_hex_literal ''DE AD,BE, EF''"
    by code_simp
  have m: "map two_digit_byte [''DE'', ''AD'', ''BE'', ''EF''] = [0xDE, 0xAD, 0xBE, 0xEF]"
    by code_simp
  have d: "snd (apply_hex_overwrite opened_state (Some 1) (Some 4) ''DE AD,BE, EF'') = Done"
    by code_simp
  have nd: "snd (apply_hex_overwrite opened_state (Some 1) (Some 3) ''DE AD,BE, EF'') \<noteq> Done"
    by code_simp
  have nb: "\<not> list_all byte_token (tokens ''DE AD 1FF'')"
    by code_simp
  note a = parse_hex_bytes_accepts [of "''DE AD,BE, EF''" opened_state "Some 1" "Some 3"]
  from a sp have p: "parse_hex_bytes ''DE AD,BE, EF'' = Inr [0xDE, 0xAD, 0xBE, 0xEF]"
    unfolding t m by blast
  from a p have b: "list_all byte_token (tokens ''DE AD,BE, EF'')" by blast
  from a p have l: "length [0xDE, 0xAD, 0xBE, 0xEF :: byte] = length (tokens ''DE AD,BE, EF'')"
    by blast
  from a nd have u: "fst (apply_hex_overwrite opened_state (Some 1) (Some 3) ''DE AD,BE, EF'')
      = opened_state"
    by blast
  from parse_hex_bytes_accepts [of "''DE AD 1FF''"] nb
  have r: "parse_hex_bytes ''DE AD 1FF'' = Inl ParseError" by blast
  from t sp p b l d nd u nb r show ?thesis by (intro conjI)
qed

end
